theory Spec2Isabelle
  imports Complex_Main "HOL-Library.Char_ord" "HOL-Library.List_Lexorder"
begin

section \<open>History store (src/embex/core/history_store.py)\<close>

text \<open>
  The store is a SQLite connection. The model is the content of the two tables the
  operations below read and write, as the connection sees them: \<open>snapshots\<close> and
  \<open>file_registry\<close>, each a list of rows in insertion order. Python strings are
  modelled as \<^typ>\<open>string\<close>, a character standing for a code point below 256;
  Python and SQLite integers are \<^typ>\<open>int\<close>. An exception is a value of type
  \<open>error\<close>: the exceptions the modelled code raises itself, and \<open>Raised msg\<close> for one
  that a collaborator passed in from outside raises.
\<close>

datatype error =
    IntegrityError
  | EnvironmentError
  | IndexError
  | ZeroDivisionError
  | Raised string

record snapshot_row =
  snap_id :: int
  snap_file_path :: string
  snap_version :: int
  snap_content :: string
  snap_timestamp :: int
  snap_checksum :: string
  snap_message :: "string option"

record registry_row =
  reg_file_path :: string
  reg_current_version :: int
  reg_first_seen :: int
  reg_last_modified :: int
  reg_language :: string
  reg_folder :: string

record history_db =
  snapshots :: "snapshot_row list"
  file_registry :: "registry_row list"

text \<open>\<open>SELECT ... FROM snapshots WHERE file_path = ? AND version = ?\<close>, then \<open>fetchone()\<close>.\<close>

definition select_snapshot :: "history_db \<Rightarrow> string \<Rightarrow> int \<Rightarrow> snapshot_row option" where
  "select_snapshot db file_path version =
     find (\<lambda>r. snap_file_path r = file_path \<and> snap_version r = version) (snapshots db)"

text \<open>\<open>SELECT current_version FROM file_registry WHERE file_path = ?\<close>, then \<open>fetchone()\<close>.\<close>

definition select_registry :: "history_db \<Rightarrow> string \<Rightarrow> registry_row option" where
  "select_registry db file_path = find (\<lambda>r. reg_file_path r = file_path) (file_registry db)"

text \<open>\<open>UPDATE file_registry SET current_version = ?, last_modified = ? WHERE file_path = ?\<close>.\<close>

definition update_registry :: "history_db \<Rightarrow> string \<Rightarrow> int \<Rightarrow> int \<Rightarrow> history_db" where
  "update_registry db file_path version now =
     db\<lparr>file_registry :=
          map (\<lambda>r. if reg_file_path r = file_path
                    then r\<lparr>reg_current_version := version, reg_last_modified := now\<rparr>
                    else r)
              (file_registry db)\<rparr>"

text \<open>
  \<open>INSERT INTO file_registry ...\<close>. \<open>snapshot_file\<close> issues it only after its
  \<open>SELECT\<close> found no row for the path, so the primary key cannot collide.
\<close>

definition insert_registry :: "history_db \<Rightarrow> registry_row \<Rightarrow> history_db" where
  "insert_registry db row = db\<lparr>file_registry := file_registry db @ [row]\<rparr>"

text \<open>
  \<open>INSERT INTO snapshots ...\<close> under the schema's \<open>UNIQUE(file_path, version)\<close>: a row
  with the same key makes the statement fail, which Python's sqlite3 raises as
  \<open>IntegrityError\<close>; the failing statement writes nothing. The \<open>AUTOINCREMENT\<close> id is
  one more than the largest id in the table.
\<close>

definition next_id :: "snapshot_row list \<Rightarrow> int" where
  "next_id rows = fold max (map snap_id rows) 0 + 1"

definition insert_snapshot ::
  "history_db \<Rightarrow> string \<Rightarrow> int \<Rightarrow> string \<Rightarrow> int \<Rightarrow> string \<Rightarrow> string option
     \<Rightarrow> error + history_db" where
  "insert_snapshot db file_path version content now cs message =
     (if \<exists>r \<in> set (snapshots db). snap_file_path r = file_path \<and> snap_version r = version
      then Inl IntegrityError
      else Inr (db\<lparr>snapshots := snapshots db @
                  [\<lparr>snap_id = next_id (snapshots db), snap_file_path = file_path,
                    snap_version = version, snap_content = content, snap_timestamp = now,
                    snap_checksum = cs, snap_message = message\<rparr>]\<rparr>))"

text \<open>
  \<open>HistoryStore.snapshot_file\<close>. \<open>checksum\<close> stands for \<open>_checksum\<close> (the SHA-256
  hex digest of the content) and \<open>now\<close> for the reading of \<open>int(time.time())\<close>. The
  result is the store after the call together with the returned version, or the
  raised error. When the final \<open>INSERT\<close> raises, the registry statement executed
  before it stays in effect on the connection: SQLite backs out the failing
  statement only. \<open>commit()\<close> makes the writes durable and changes nothing of what the
  connection reads, so it has no counterpart here.
\<close>

definition snapshot_file ::
  "(string \<Rightarrow> string) \<Rightarrow> int \<Rightarrow> history_db \<Rightarrow> string \<Rightarrow> string \<Rightarrow> string \<Rightarrow> string
     \<Rightarrow> string option \<Rightarrow> history_db \<times> (error + int)" where
  "snapshot_file checksum now db file_path content language folder message =
     (let cs = checksum content in
      case select_registry db file_path of
        Some row \<Rightarrow>
          let current_version = reg_current_version row;
              snap = select_snapshot db file_path current_version
          in if (case snap of Some s \<Rightarrow> snap_checksum s = cs | None \<Rightarrow> False)
             then (db, Inr current_version)
             else
               let new_version = current_version + 1;
                   db1 = update_registry db file_path new_version now
               in (case insert_snapshot db1 file_path new_version content now cs message of
                     Inl e \<Rightarrow> (db1, Inl e)
                   | Inr db2 \<Rightarrow> (db2, Inr new_version))
      | None \<Rightarrow>
          let new_version = 1;
              db1 = insert_registry db
                      \<lparr>reg_file_path = file_path, reg_current_version = new_version,
                       reg_first_seen = now, reg_last_modified = now,
                       reg_language = language, reg_folder = folder\<rparr>
          in (case insert_snapshot db1 file_path new_version content now cs message of
                Inl e \<Rightarrow> (db1, Inl e)
              | Inr db2 \<Rightarrow> (db2, Inr new_version)))"

text \<open>\<open>HistoryStore.get_snapshot\<close>: the content of a version, or \<open>None\<close>.\<close>

definition get_snapshot :: "history_db \<Rightarrow> string \<Rightarrow> int \<Rightarrow> string option" where
  "get_snapshot db file_path version =
     map_option snap_content (select_snapshot db file_path version)"

text \<open>\<open>HistoryStore.get_latest_version\<close>: the current version, 0 for an untracked file.\<close>

definition get_latest_version :: "history_db \<Rightarrow> string \<Rightarrow> int" where
  "get_latest_version db file_path =
     (case select_registry db file_path of Some row \<Rightarrow> reg_current_version row | None \<Rightarrow> 0)"

text \<open>\<open>HistoryStore.restore_to_version\<close>: the store after the call and the returned flag.\<close>

definition restore_to_version :: "int \<Rightarrow> history_db \<Rightarrow> string \<Rightarrow> int \<Rightarrow> history_db \<times> bool" where
  "restore_to_version now db file_path version =
     (case select_snapshot db file_path version of
        None \<Rightarrow> (db, False)
      | Some _ \<Rightarrow> (update_registry db file_path version now, True))"

text \<open>
  SQLite's \<open>LIKE\<close> as the query uses it (no \<open>ESCAPE\<close>, no \<open>case_sensitive_like\<close>
  pragma): in the pattern \<open>%\<close> matches any run of characters, \<open>_\<close> matches any one
  character, and every other character matches itself, ASCII letters regardless of
  case.
\<close>

definition ascii_lower :: "char \<Rightarrow> char" where
  "ascii_lower c =
     (if of_char c \<ge> (65::nat) \<and> of_char c \<le> (90::nat) then char_of (of_char c + (32::nat)) else c)"

fun sql_like :: "string \<Rightarrow> string \<Rightarrow> bool" where
  "sql_like [] [] = True"
| "sql_like [] (c # cs) = False"
| "sql_like (p # ps) [] = (p = CHR ''%'' \<and> sql_like ps [])"
| "sql_like (p # ps) (c # cs) =
     (if p = CHR ''%'' then sql_like ps (c # cs) \<or> sql_like (p # ps) cs
      else if p = CHR ''_'' then sql_like ps cs
      else ascii_lower p = ascii_lower c \<and> sql_like ps cs)"

text \<open>Python's \<open>s.rstrip("/")\<close>.\<close>

definition rstrip_slash :: "string \<Rightarrow> string" where
  "rstrip_slash s = rev (dropWhile (\<lambda>c. c = CHR ''/'') (rev s))"

text \<open>
  \<open>HistoryStore.list_files_in_folder\<close>:
  \<open>SELECT file_path FROM file_registry WHERE file_path LIKE ? ORDER BY file_path\<close>
  with the parameter \<open>folder_prefix.rstrip("/") + "/" + "%"\<close>.
\<close>

definition list_files_in_folder :: "history_db \<Rightarrow> string \<Rightarrow> string list" where
  "list_files_in_folder db folder_prefix =
     (let prefix = rstrip_slash folder_prefix @ ''/'' in
      sort (map reg_file_path
              (filter (\<lambda>r. sql_like (prefix @ ''%'') (reg_file_path r)) (file_registry db))))"

subsection \<open>Predicates and example stores for the properties\<close>

text \<open>
  The test \<open>snapshot_file\<close> makes before it writes: the file is tracked and the snapshot
  at its current version has the checksum of the content.
\<close>

definition content_unchanged :: "(string \<Rightarrow> string) \<Rightarrow> history_db \<Rightarrow> string \<Rightarrow> string \<Rightarrow> bool" where
  "content_unchanged checksum db file_path content =
     (case select_registry db file_path of
        None \<Rightarrow> False
      | Some row \<Rightarrow>
          (case select_snapshot db file_path (reg_current_version row) of
             None \<Rightarrow> False
           | Some s \<Rightarrow> snap_checksum s = checksum content))"

text \<open>
  What \<open>snapshot_file\<close>, the only writer of snapshots, establishes: every snapshot row
  carries the checksum of its content, and its file has a registry row.
\<close>

definition store_inv :: "(string \<Rightarrow> string) \<Rightarrow> history_db \<Rightarrow> bool" where
  "store_inv checksum db =
     list_all (\<lambda>s. snap_checksum s = checksum (snap_content s) \<and>
                    select_registry db (snap_file_path s) \<noteq> None)
              (snapshots db)"

text \<open>The store right after the schema is created.\<close>

definition empty_db :: history_db where
  "empty_db = \<lparr>snapshots = [], file_registry = []\<rparr>"

text \<open>
  The store after \<open>a.py\<close> was snapshotted with content \<open>x = 1\<close> at time 100 and with
  \<open>x = 2\<close> at time 200, the checksum of the examples being the content itself.
\<close>

definition store2 :: history_db where
  "store2 =
     \<lparr>snapshots =
        [\<lparr>snap_id = 1, snap_file_path = ''a.py'', snap_version = 1, snap_content = ''x = 1'',
          snap_timestamp = 100, snap_checksum = ''x = 1'', snap_message = None\<rparr>,
         \<lparr>snap_id = 2, snap_file_path = ''a.py'', snap_version = 2, snap_content = ''x = 2'',
          snap_timestamp = 200, snap_checksum = ''x = 2'', snap_message = None\<rparr>],
      file_registry =
        [\<lparr>reg_file_path = ''a.py'', reg_current_version = 2, reg_first_seen = 100,
          reg_last_modified = 200, reg_language = ''python'', reg_folder = ''.''\<rparr>]\<rparr>"

text \<open>
  The store after \<open>my_pkg/a.py\<close> and \<open>my-pkg/b.py\<close> were snapshotted once each: one
  tracked file in each of the folders \<open>my_pkg\<close> and \<open>my-pkg\<close>.
\<close>

definition store_pkgs :: history_db where
  "store_pkgs =
     \<lparr>snapshots =
        [\<lparr>snap_id = 1, snap_file_path = ''my_pkg/a.py'', snap_version = 1,
          snap_content = ''a = 1'', snap_timestamp = 100, snap_checksum = ''a = 1'',
          snap_message = None\<rparr>,
         \<lparr>snap_id = 2, snap_file_path = ''my-pkg/b.py'', snap_version = 1,
          snap_content = ''b = 1'', snap_timestamp = 200, snap_checksum = ''b = 1'',
          snap_message = None\<rparr>],
      file_registry =
        [\<lparr>reg_file_path = ''my_pkg/a.py'', reg_current_version = 1, reg_first_seen = 100,
          reg_last_modified = 100, reg_language = ''python'', reg_folder = ''my_pkg''\<rparr>,
         \<lparr>reg_file_path = ''my-pkg/b.py'', reg_current_version = 1, reg_first_seen = 200,
          reg_last_modified = 200, reg_language = ''python'', reg_folder = ''my-pkg''\<rparr>]\<rparr>"

section \<open>Chunker (src/embex/core/chunker.py)\<close>

text \<open>
  Python's \<open>str.splitlines(keepends=True)\<close> on code points below 256: a line ends after
  a line boundary (\<open>\n\<close>, \<open>\v\<close>, \<open>\f\<close>, \<open>\r\<close>, \<open>\x1c\<close>, \<open>\x1d\<close>, \<open>\x1e\<close>, \<open>\x85\<close>), \<open>\r\n\<close>
  counting as one boundary; the boundary stays in the line; text after the last
  boundary is a line of its own when it is not empty.
\<close>

definition is_linebreak :: "char \<Rightarrow> bool" where
  "is_linebreak c =
     (c \<in> set [CHR 0x0A, CHR 0x0B, CHR 0x0C, CHR 0x0D, CHR 0x1C, CHR 0x1D, CHR 0x1E, CHR 0x85])"

fun splitlines_from :: "string \<Rightarrow> string \<Rightarrow> string list" where
  "splitlines_from cur [] = (if cur = [] then [] else [cur])"
| "splitlines_from cur [c] = [cur @ [c]]"
| "splitlines_from cur (c # d # cs) =
     (if c = CHR 0x0D \<and> d = CHR 0x0A then (cur @ [c, d]) # splitlines_from [] cs
      else if is_linebreak c then (cur @ [c]) # splitlines_from [] (d # cs)
      else splitlines_from (cur @ [c]) (d # cs))"

definition splitlines :: "string \<Rightarrow> string list" where
  "splitlines content = splitlines_from [] content"

text \<open>
  The characters \<open>str.strip()\<close> removes (those for which \<open>str.isspace\<close> holds), below
  256. \<open>content.strip()\<close> is empty exactly when every character of the content is one
  of them.
\<close>

definition is_space :: "char \<Rightarrow> bool" where
  "is_space c =
     (c \<in> set [CHR 0x09, CHR 0x0A, CHR 0x0B, CHR 0x0C, CHR 0x0D, CHR 0x1C, CHR 0x1D, CHR 0x1E,
                CHR 0x1F, CHR 0x20, CHR 0x85, CHR 0xA0])"

definition strip_is_empty :: "string \<Rightarrow> bool" where
  "strip_is_empty content = list_all is_space content"

text \<open>
  Python's slice \<open>xs[i:j]\<close> for integers \<open>i\<close> and \<open>j\<close>: a negative index counts from the
  end, and both are clamped to the list.
\<close>

definition py_slice :: "'a list \<Rightarrow> int \<Rightarrow> int \<Rightarrow> 'a list" where
  "py_slice xs i j =
     (let n = int (length xs);
          lo = (if i < 0 then max (i + n) 0 else min i n);
          hi = (if j < 0 then max (j + n) 0 else min j n)
      in take (nat (hi - lo)) (drop (nat lo) xs))"

text \<open>
  A chunk is the tuple \<open>(chunk_text, chunk_index, start_line, end_line)\<close> of the source,
  the line numbers 1-based.
\<close>

type_synonym chunk = "string \<times> int \<times> int \<times> int"

text \<open>
  The \<open>while start < total\<close> loop of \<open>chunk_content\<close>, from the state \<open>(idx, start)\<close>:
  the chunks it appends from there on, in order. The step is at least 1, so the loop
  ends.
\<close>

function chunk_loop :: "string list \<Rightarrow> int \<Rightarrow> int \<Rightarrow> int \<Rightarrow> int \<Rightarrow> chunk list" where
  "chunk_loop lines chunk_size overlap idx start =
     (let total = int (length lines);
          step = max (chunk_size - overlap) 1
      in if start < total then
           let end = min (start + chunk_size) total;
               chunk = (concat (py_slice lines start end), idx, start + 1, end);
               idx' = idx + 1;
               start' = start + step
           in if start' < total \<and> total - start' \<le> overlap
              then [chunk, (concat (py_slice lines start' total), idx', start' + 1, total)]
              else chunk # chunk_loop lines chunk_size overlap idx' start'
         else [])"
  by pat_completeness auto
termination
  by (relation "measure (\<lambda>(lines, chunk_size, overlap, idx, start). nat (int (length lines) - start))")
     auto

declare chunk_loop.simps [simp del]

text \<open>\<open>chunk_content\<close>: nothing for empty or whitespace-only content, else the loop from line 0.\<close>

definition chunk_content :: "string \<Rightarrow> int \<Rightarrow> int \<Rightarrow> chunk list" where
  "chunk_content content chunk_size overlap =
     (if content = [] \<or> strip_is_empty content then []
      else let lines = splitlines content in
           if length lines = 0 then [] else chunk_loop lines chunk_size overlap 0 0)"

text \<open>The line range of a chunk, and the ranges of a list of chunks.\<close>

definition line_range :: "chunk \<Rightarrow> int \<times> int" where
  "line_range c = (case c of (chunk_text, idx, start_line, end_line) \<Rightarrow> (start_line, end_line))"

definition line_ranges :: "chunk list \<Rightarrow> (int \<times> int) list" where
  "line_ranges cs = map line_range cs"

subsection \<open>Predicates and example contents for the properties\<close>

text \<open>
  The number of lines two consecutive ranges share, when the second starts inside or
  right after the first.
\<close>

definition shared_lines :: "int \<times> int \<Rightarrow> int \<times> int \<Rightarrow> int" where
  "shared_lines r1 r2 = snd r1 - fst r2 + 1"

text \<open>
  Consecutive ranges are in order and leave no gap: each starts after the one before
  it started, at the latest one line after that one ended, and ends no earlier.
\<close>

fun ranges_chained :: "(int \<times> int) list \<Rightarrow> bool" where
  "ranges_chained (r1 # r2 # rs) =
     (fst r1 < fst r2 \<and> fst r2 \<le> snd r1 + 1 \<and> snd r1 \<le> snd r2 \<and> ranges_chained (r2 # rs))"
| "ranges_chained rs = True"

text \<open>
  Consecutive ranges share exactly \<open>ov\<close> lines, except that the last range may be a
  short one of at most \<open>ov\<close> lines that lies in the range before it.
\<close>

fun overlaps_ok :: "int \<Rightarrow> (int \<times> int) list \<Rightarrow> bool" where
  "overlaps_ok ov (r1 # r2 # r3 # rs) = (shared_lines r1 r2 = ov \<and> overlaps_ok ov (r2 # r3 # rs))"
| "overlaps_ok ov [r1, r2] =
     (shared_lines r1 r2 = ov \<or>
      (snd r2 - fst r2 + 1 \<le> ov \<and> shared_lines r1 r2 = snd r2 - fst r2 + 1))"
| "overlaps_ok ov rs = True"

text \<open>
  Example contents: ten numbered lines, and 25 lines.
\<close>

definition ten_lines :: string where
  "ten_lines = ''l1\<newline>l2\<newline>l3\<newline>l4\<newline>l5\<newline>l6\<newline>l7\<newline>l8\<newline>l9\<newline>l10\<newline>''"

definition lines25 :: string where
  "lines25 = concat (replicate 25 ''x\<newline>'')"

section \<open>Vector store queries (src/embex/core/vector_store.py)\<close>

text \<open>
  A Python float (a distance, a score, the threshold) is a double; a finite double is
  modelled by the \<^typ>\<open>real\<close> it denotes, so the comparisons below are those of the
  code. Arithmetic on doubles rounds its result: \<open>rnd\<close>, a parameter of the functions
  that compute with floats, stands for the rounding of a real to the nearest double,
  which is also how the literal \<open>0.30\<close> is read. NaN and the infinities are outside
  the model; no finite distance leads to them in \<open>1.0 / (1.0 + dist)\<close>.

  A ChromaDB collection is an outside collaborator, modelled by what it answers:
  \<open>count()\<close> and \<open>query(query_embeddings=[e], n_results=n, ...)\<close>, either of which may
  raise. A hit of a query carries its id, document, metadata and distance.
\<close>

record metadata =
  m_file_path :: "string option"
  m_chunk_index :: "int option"
  m_folder :: "string option"
  m_language :: "string option"

record chroma_hit =
  h_id :: string
  h_doc :: "string option"
  h_meta :: metadata
  h_dist :: real

record collection =
  col_count :: "error + nat"
  col_query :: "real list \<Rightarrow> int \<Rightarrow> error + chroma_hit list"

text \<open>
  The persistent client behind a \<open>VectorStore\<close>: the collections it lists and the
  collection it returns (or creates) for a name.
\<close>

record vector_store =
  list_collections :: "collection list"
  client_get_or_create_collection :: "string \<Rightarrow> collection"

text \<open>An entry of the list \<open>VectorStore.query\<close> returns.\<close>

record query_result =
  r_file_path :: string
  r_chunk_index :: int
  r_score :: real
  r_preview :: string
  r_folder :: string
  r_language :: string

text \<open>Python's \<open>s.strip(chars)\<close> and \<open>s.rstrip(chars)\<close>.\<close>

definition py_rstrip :: "char list \<Rightarrow> string \<Rightarrow> string" where
  "py_rstrip chars s = rev (dropWhile (\<lambda>c. c \<in> set chars) (rev s))"

definition py_strip :: "char list \<Rightarrow> string \<Rightarrow> string" where
  "py_strip chars s = py_rstrip chars (dropWhile (\<lambda>c. c \<in> set chars) s)"

text \<open>\<open>_collection_name\<close>: the collection name of a folder path.\<close>

definition collection_name :: "string \<Rightarrow> string" where
  "collection_name folder =
     (if folder \<in> set [''.'', '''', ''/''] then ''root''
      else
        let name = map (\<lambda>c. if c = CHR ''/'' \<or> c = CHR 0x5C then CHR ''_'' else c) folder;
            name = py_strip ''_-.'' name;
            name = (if length name < 3 then name @ ''_col'' else name);
            name = (if length name > 63 then py_rstrip ''_-'' (take 63 name) else name)
        in name)"

text \<open>\<open>VectorStore.get_or_create_collection\<close>.\<close>

definition get_or_create_collection :: "vector_store \<Rightarrow> string \<Rightarrow> collection" where
  "get_or_create_collection vs folder = client_get_or_create_collection vs (collection_name folder)"

text \<open>
  The inner loop of \<open>VectorStore.query\<close> over the hits of one collection: each becomes
  a result with the score \<open>1.0 / (1.0 + dist)\<close>, the sum and the quotient each
  rounded. The division raises \<open>ZeroDivisionError\<close> on a zero divisor, and nothing
  catches it there.
\<close>

definition result_of_hit :: "(real \<Rightarrow> real) \<Rightarrow> chroma_hit \<Rightarrow> query_result" where
  "result_of_hit rnd h =
     \<lparr>r_file_path = (case m_file_path (h_meta h) of Some p \<Rightarrow> p | None \<Rightarrow> ''''),
      r_chunk_index = (case m_chunk_index (h_meta h) of Some i \<Rightarrow> i | None \<Rightarrow> 0),
      r_score = rnd (1 / rnd (1 + h_dist h)),
      r_preview = take 200 (case h_doc h of Some d \<Rightarrow> d | None \<Rightarrow> ''''),
      r_folder = (case m_folder (h_meta h) of Some f \<Rightarrow> f | None \<Rightarrow> ''''),
      r_language = (case m_language (h_meta h) of Some l \<Rightarrow> l | None \<Rightarrow> '''')\<rparr>"

fun results_of_hits :: "(real \<Rightarrow> real) \<Rightarrow> chroma_hit list \<Rightarrow> error + query_result list" where
  "results_of_hits rnd [] = Inr []"
| "results_of_hits rnd (h # hs) =
     (if rnd (1 + h_dist h) = 0 then Inl ZeroDivisionError
      else case results_of_hits rnd hs of
             Inl e \<Rightarrow> Inl e
           | Inr rs \<Rightarrow> Inr (result_of_hit rnd h # rs))"

text \<open>
  One pass of the loop over the collections: an exception of \<open>count()\<close> or \<open>query()\<close>
  skips the collection, as do a count of 0 and an empty answer.
\<close>

definition collection_results ::
  "(real \<Rightarrow> real) \<Rightarrow> collection \<Rightarrow> real list \<Rightarrow> int \<Rightarrow> error + query_result list" where
  "collection_results rnd col query_embedding top_k =
     (case col_count col of
        Inl _ \<Rightarrow> Inr []
      | Inr count \<Rightarrow>
          if count = 0 then Inr []
          else (case col_query col query_embedding (min top_k (int count)) of
                  Inl _ \<Rightarrow> Inr []
                | Inr hits \<Rightarrow> results_of_hits rnd hits))"

fun query_collections ::
  "(real \<Rightarrow> real) \<Rightarrow> collection list \<Rightarrow> real list \<Rightarrow> int \<Rightarrow> error + query_result list" where
  "query_collections rnd [] query_embedding top_k = Inr []"
| "query_collections rnd (col # cols) query_embedding top_k =
     (case collection_results rnd col query_embedding top_k of
        Inl e \<Rightarrow> Inl e
      | Inr rs \<Rightarrow>
          (case query_collections rnd cols query_embedding top_k of
             Inl e \<Rightarrow> Inl e
           | Inr rest \<Rightarrow> Inr (rs @ rest)))"

text \<open>The collections a query searches: the folder's, or all of them without a folder.\<close>

definition searched_collections :: "vector_store \<Rightarrow> string option \<Rightarrow> collection list" where
  "searched_collections vs folder =
     (case folder of
        None \<Rightarrow> list_collections vs
      | Some f \<Rightarrow> if f = [] then list_collections vs else [get_or_create_collection vs f])"

text \<open>
  \<open>VectorStore.query\<close>: the results of all searched collections, sorted by descending
  score (Python's sort is stable, also with \<open>reverse=True\<close>), cut to \<open>results[:top_k]\<close>.
\<close>

definition query ::
  "(real \<Rightarrow> real) \<Rightarrow> vector_store \<Rightarrow> real list \<Rightarrow> string option \<Rightarrow> int
     \<Rightarrow> error + query_result list" where
  "query rnd vs query_embedding folder top_k =
     (case query_collections rnd (searched_collections vs folder) query_embedding top_k of
        Inl e \<Rightarrow> Inl e
      | Inr results \<Rightarrow> Inr (py_slice (sort_key (\<lambda>r. - r_score r) results) 0 top_k))"

section \<open>Corrective retrieval pipeline (src/embex/core/rag.py)\<close>

text \<open>
  The collaborators of \<open>ask\<close> are parameters of the model: the embedder's
  \<open>embed_query\<close>, the vector store, the process environment as it is after the
  \<open>load_dotenv\<close> calls, and the chat-completion endpoint, which is given the API key,
  the model name and the messages and answers with the choices' messages or raises.
  The text of \<open>_SYSTEM_PROMPT\<close> and the rendering of a score by \<open>:.3f\<close> are parameters
  as well. Every function returns, besides its result, the requests it sent to
  collaborators, in order.
\<close>

datatype request =
    EmbedRequest string
  | RetrievalRequest "real list" "string option" int
  | GenerationRequest string "(string \<times> string) list"

record llm_config =
  llm_model :: string
  llm_api_key_env :: string

record chat_message =
  msg_content :: "string option"
  msg_reasoning_content :: "string option"

record ask_result =
  answer :: string
  sources :: "query_result list"
  relevant_count :: int
  total_retrieved :: int

text \<open>
  \<open>_RELEVANCE_THRESHOLD\<close>, the double that the literal \<open>0.30\<close> denotes, and
  \<open>_MAX_CHUNK_CHARS\<close>.
\<close>

definition RELEVANCE_THRESHOLD :: "(real \<Rightarrow> real) \<Rightarrow> real" where
  "RELEVANCE_THRESHOLD rnd = rnd (30 / 100)"

definition MAX_CHUNK_CHARS :: nat where
  "MAX_CHUNK_CHARS = 1200"

text \<open>Python's \<open>str(n)\<close> for an integer.\<close>

fun str_nat :: "nat \<Rightarrow> string" where
  "str_nat n = (if n < 10 then [char_of (48 + n)] else str_nat (n div 10) @ [char_of (48 + n mod 10)])"

declare str_nat.simps [simp del]

definition str_int :: "int \<Rightarrow> string" where
  "str_int i = (if i < 0 then ''-'' @ str_nat (nat (- i)) else str_nat (nat i))"

text \<open>Python's \<open>sep.join(parts)\<close>.\<close>

fun join :: "string \<Rightarrow> string list \<Rightarrow> string" where
  "join sep [] = []"
| "join sep [x] = x"
| "join sep (x # y # ys) = x @ sep @ join sep (y # ys)"

text \<open>\<open>_build_messages\<close>: the system and the user message, each a pair of role and content.\<close>

definition build_messages :: "string \<Rightarrow> string \<Rightarrow> string \<Rightarrow> (string \<times> string) list" where
  "build_messages system_prompt question context =
     [(''system'', system_prompt),
      (''user'',
       ''Here are the relevant code chunks from the project:\<newline>\<newline>'' @ context @
       ''\<newline>\<newline>---\<newline>\<newline>Question: '' @ question)]"

text \<open>\<open>msg.content or getattr(msg, "reasoning_content", None) or ""\<close>.\<close>

definition message_text :: "chat_message \<Rightarrow> string" where
  "message_text msg =
     (case msg_content msg of
        Some (c # cs) \<Rightarrow> c # cs
      | _ \<Rightarrow> (case msg_reasoning_content msg of Some (c # cs) \<Rightarrow> c # cs | _ \<Rightarrow> ''''))"

text \<open>
  \<open>_call_zai\<close>: without an API key in the environment (unset or empty) it raises
  \<open>EnvironmentError\<close> before the client is built; otherwise it sends the request,
  takes \<open>choices[0]\<close> and returns the message's content, else its reasoning content,
  else the empty string. The imports at its head are taken to succeed.
\<close>

definition call_zai ::
  "(string \<Rightarrow> string option) \<Rightarrow> (string \<Rightarrow> string \<Rightarrow> (string \<times> string) list \<Rightarrow> error + chat_message list)
     \<Rightarrow> string \<Rightarrow> string \<Rightarrow> string \<Rightarrow> llm_config \<Rightarrow> request list \<times> (error + string)" where
  "call_zai environ chat system_prompt question context config =
     (case environ (llm_api_key_env config) of
        None \<Rightarrow> ([], Inl EnvironmentError)
      | Some api_key \<Rightarrow>
          if api_key = [] then ([], Inl EnvironmentError)
          else
            let model = (if llm_model config = [] then ''glm-4.7-flash'' else llm_model config);
                messages = build_messages system_prompt question context;
                sent = [GenerationRequest model messages]
            in (case chat api_key model messages of
                  Inl e \<Rightarrow> (sent, Inl e)
                | Inr [] \<Rightarrow> (sent, Inl IndexError)
                | Inr (msg # _) \<Rightarrow> (sent, Inr (message_text msg))))"

text \<open>\<open>_call_llm\<close>.\<close>

definition call_llm ::
  "(string \<Rightarrow> string option) \<Rightarrow> (string \<Rightarrow> string \<Rightarrow> (string \<times> string) list \<Rightarrow> error + chat_message list)
     \<Rightarrow> string \<Rightarrow> string \<Rightarrow> string \<Rightarrow> llm_config \<Rightarrow> request list \<times> (error + string)" where
  "call_llm environ chat system_prompt question context config =
     call_zai environ chat system_prompt question context config"

text \<open>Step 3 of \<open>ask\<close> for one context chunk: its part of the context and its source entry.\<close>

definition context_part :: "(real \<Rightarrow> string) \<Rightarrow> query_result \<Rightarrow> string" where
  "context_part fmt3 r =
     ''### '' @ r_file_path r @ '' (chunk #'' @ str_int (r_chunk_index r) @ '', score='' @
     fmt3 (r_score r) @ '')\<newline>```\<newline>'' @ take MAX_CHUNK_CHARS (r_preview r) @ ''\<newline>```''"

definition source_of :: "query_result \<Rightarrow> query_result" where
  "source_of r = r\<lparr>r_preview := take MAX_CHUNK_CHARS (r_preview r)\<rparr>"

text \<open>
  \<open>ask\<close>: embed the question, retrieve, keep the results at or above the threshold or
  fall back to all of them, build the context, call the model. An exception of a
  step ends the call with that exception.
\<close>

definition ask ::
  "(real \<Rightarrow> real) \<Rightarrow> (string \<Rightarrow> string option) \<Rightarrow> (string \<Rightarrow> string \<Rightarrow> (string \<times> string) list \<Rightarrow> error + chat_message list)
     \<Rightarrow> string \<Rightarrow> (real \<Rightarrow> string)
     \<Rightarrow> string \<Rightarrow> llm_config \<Rightarrow> (string \<Rightarrow> error + real list) \<Rightarrow> vector_store \<Rightarrow> int
     \<Rightarrow> string option \<Rightarrow> real option \<Rightarrow> request list \<times> (error + ask_result)" where
  "ask rnd environ chat system_prompt fmt3 question config embed_query vs top_k folder
       relevance_threshold =
     (let threshold =
        (case relevance_threshold of Some t \<Rightarrow> t | None \<Rightarrow> RELEVANCE_THRESHOLD rnd) in
      case embed_query question of
        Inl e \<Rightarrow> ([EmbedRequest question], Inl e)
      | Inr query_embedding \<Rightarrow>
          let sent = [EmbedRequest question, RetrievalRequest query_embedding folder top_k] in
          (case query rnd vs query_embedding folder top_k of
             Inl e \<Rightarrow> (sent, Inl e)
           | Inr results \<Rightarrow>
               let relevant = filter (\<lambda>r. r_score r \<ge> threshold) results;
                   context_chunks = (if relevant \<noteq> [] then relevant else results);
                   context_parts = map (context_part fmt3) context_chunks;
                   source_list = map source_of context_chunks;
                   context_str = (if context_parts \<noteq> [] then join ''\<newline>\<newline>'' context_parts
                                  else ''(No code chunks retrieved.)'')
               in (case call_llm environ chat system_prompt question context_str config of
                     (sent_llm, Inl e) \<Rightarrow> (sent @ sent_llm, Inl e)
                   | (sent_llm, Inr answer_text) \<Rightarrow>
                       (sent @ sent_llm,
                        Inr \<lparr>answer = answer_text, sources = source_list,
                             relevant_count = int (length relevant),
                             total_retrieved = int (length results)\<rparr>))))"

subsection \<open>Predicates and an example setting for the properties\<close>




text \<open>The threshold \<open>ask\<close> uses: the override, else \<open>_RELEVANCE_THRESHOLD\<close>.\<close>

definition threshold_of :: "(real \<Rightarrow> real) \<Rightarrow> real option \<Rightarrow> real" where
  "threshold_of rnd relevance_threshold =
     (case relevance_threshold of Some t \<Rightarrow> t | None \<Rightarrow> RELEVANCE_THRESHOLD rnd)"

text \<open>
  What \<open>ask\<close> is to hand on, stated apart from \<open>ask\<close>: the context set of a retrieved
  list (the results at or above the threshold, or the whole list when there is none),
  the model name of the request, and the messages of the request for a context set.
\<close>

definition context_set :: "real \<Rightarrow> query_result list \<Rightarrow> query_result list" where
  "context_set threshold results =
     (if filter (\<lambda>r. r_score r \<ge> threshold) results = [] then results
      else filter (\<lambda>r. r_score r \<ge> threshold) results)"

definition sent_model :: "llm_config \<Rightarrow> string" where
  "sent_model config = (if llm_model config = [] then ''glm-4.7-flash'' else llm_model config)"

definition generation_messages ::
  "string \<Rightarrow> (real \<Rightarrow> string) \<Rightarrow> string \<Rightarrow> query_result list \<Rightarrow> (string \<times> string) list" where
  "generation_messages system_prompt fmt3 question chunks =
     build_messages system_prompt question
       (if chunks = [] then ''(No code chunks retrieved.)''
        else join ''\<newline>\<newline>'' (map (context_part fmt3) chunks))"

text \<open>
  An example. The rounding agrees with that of doubles on the numbers that occur:
  \<open>0.30\<close> is read as the double \<open>5404319552844595 / 2^54\<close>, and the sums and quotients
  of the example are doubles as they are. One collection holds two chunks at
  distances 3 and 7 from the query (scores 0.25 and 0.125, both below the threshold);
  the environment holds the API key, and the endpoint answers.
\<close>

definition example_rnd :: "real \<Rightarrow> real" where
  "example_rnd x = (if x = 30 / 100 then 5404319552844595 / 18014398509481984 else x)"

definition example_hits :: "chroma_hit list" where
  "example_hits =
     [\<lparr>h_id = ''auth.py::0'', h_doc = Some ''def login(): ...'',
       h_meta = \<lparr>m_file_path = Some ''auth.py'', m_chunk_index = Some 0, m_folder = Some ''.'',
                 m_language = Some ''python''\<rparr>,
       h_dist = 3\<rparr>,
      \<lparr>h_id = ''db.py::1'', h_doc = Some ''def connect(): ...'',
       h_meta = \<lparr>m_file_path = Some ''db.py'', m_chunk_index = Some 1, m_folder = Some ''.'',
                 m_language = Some ''python''\<rparr>,
       h_dist = 7\<rparr>]"

definition example_collection :: collection where
  "example_collection =
     \<lparr>col_count = Inr 2,
      col_query = (\<lambda>e n. if n \<le> 0 then Inl (Raised ''n_results'') else Inr (take (nat n) example_hits))\<rparr>"

definition example_store :: vector_store where
  "example_store =
     \<lparr>list_collections = [example_collection],
      client_get_or_create_collection = (\<lambda>name. example_collection)\<rparr>"

definition example_results :: "query_result list" where
  "example_results =
     [\<lparr>r_file_path = ''auth.py'', r_chunk_index = 0, r_score = 1 / 4,
       r_preview = ''def login(): ...'', r_folder = ''.'', r_language = ''python''\<rparr>,
      \<lparr>r_file_path = ''db.py'', r_chunk_index = 1, r_score = 1 / 8,
       r_preview = ''def connect(): ...'', r_folder = ''.'', r_language = ''python''\<rparr>]"

definition example_config :: llm_config where
  "example_config = \<lparr>llm_model = ''glm-4.7-flash'', llm_api_key_env = ''ZAI_API_KEY''\<rparr>"

definition example_environ :: "string \<Rightarrow> string option" where
  "example_environ name = (if name = ''ZAI_API_KEY'' then Some ''secret'' else None)"

definition example_chat :: "string \<Rightarrow> string \<Rightarrow> (string \<times> string) list \<Rightarrow> error + chat_message list" where
  "example_chat api_key model messages =
     Inr [\<lparr>msg_content = Some ''See auth.py.'', msg_reasoning_content = None\<rparr>]"



section \<open>File watcher (src/embex/core/watcher.py)\<close>

text \<open>
  Events are handled one at a time, as the handler's lock and watchdog's dispatch
  thread have it. Each event comes with the reading \<open>time.time()\<close> gives while it is
  handled, a float modelled as the \<^typ>\<open>real\<close> it denotes; the difference of two
  readings is taken exactly. The handler's state is the dictionary
  \<open>_last_event\<close>. What the filesystem and the configuration decide is a parameter:
  \<open>should_ignore\<close>, and \<open>path_str\<close> for \<open>str(Path(event.src_path))\<close>, the key of the
  dictionary. The indexing of a file and the removal of its embeddings are recorded
  as the action an event leads to.
\<close>

datatype event_kind = Created | Modified | Deleted

record fs_event =
  ev_kind :: event_kind
  ev_is_directory :: bool
  ev_src_path :: string

datatype action = ProcessFile string | DeleteFile string

text \<open>\<open>_DEBOUNCE_SECONDS\<close>.\<close>

definition DEBOUNCE_SECONDS :: real where
  "DEBOUNCE_SECONDS = 1"

text \<open>
  \<open>_is_debounced\<close>: \<open>True\<close> (skip the event) when the last accepted event of the path
  is less than the window ago; otherwise the path's timestamp becomes \<open>now\<close>.
\<close>

definition is_debounced :: "real \<Rightarrow> (string \<rightharpoonup> real) \<Rightarrow> string \<Rightarrow> (string \<rightharpoonup> real) \<times> bool" where
  "is_debounced now last_event path =
     (let last = (case last_event path of Some t \<Rightarrow> t | None \<Rightarrow> 0) in
      if now - last < DEBOUNCE_SECONDS then (last_event, True)
      else (last_event(path \<mapsto> now), False))"

text \<open>\<open>_handle_event\<close>, the handler of \<open>on_created\<close> and \<open>on_modified\<close>.\<close>

definition handle_event ::
  "(string \<Rightarrow> bool) \<Rightarrow> (string \<Rightarrow> string) \<Rightarrow> real \<Rightarrow> (string \<rightharpoonup> real) \<Rightarrow> fs_event
     \<Rightarrow> (string \<rightharpoonup> real) \<times> action option" where
  "handle_event should_ignore path_str now last_event event =
     (if ev_is_directory event then (last_event, None)
      else if should_ignore (ev_src_path event) then (last_event, None)
      else (case is_debounced now last_event (path_str (ev_src_path event)) of
              (last_event', True) \<Rightarrow> (last_event', None)
            | (last_event', False) \<Rightarrow> (last_event', Some (ProcessFile (ev_src_path event)))))"

text \<open>\<open>on_deleted\<close>: the debounce is not consulted.\<close>

definition on_deleted ::
  "(string \<Rightarrow> bool) \<Rightarrow> (string \<rightharpoonup> real) \<Rightarrow> fs_event \<Rightarrow> (string \<rightharpoonup> real) \<times> action option" where
  "on_deleted should_ignore last_event event =
     (if ev_is_directory event then (last_event, None)
      else if should_ignore (ev_src_path event) then (last_event, None)
      else (last_event, Some (DeleteFile (ev_src_path event))))"

text \<open>The dispatch of one event to \<open>on_created\<close>, \<open>on_modified\<close> or \<open>on_deleted\<close>.\<close>

definition dispatch ::
  "(string \<Rightarrow> bool) \<Rightarrow> (string \<Rightarrow> string) \<Rightarrow> real \<Rightarrow> (string \<rightharpoonup> real) \<Rightarrow> fs_event
     \<Rightarrow> (string \<rightharpoonup> real) \<times> action option" where
  "dispatch should_ignore path_str now last_event event =
     (case ev_kind event of
        Created \<Rightarrow> handle_event should_ignore path_str now last_event event
      | Modified \<Rightarrow> handle_event should_ignore path_str now last_event event
      | Deleted \<Rightarrow> on_deleted should_ignore last_event event)"

text \<open>
  A sequence of events, each with its time reading, handled in order from a state of
  the dictionary: the state after each event and the action it led to.
\<close>

fun run_events ::
  "(string \<Rightarrow> bool) \<Rightarrow> (string \<Rightarrow> string) \<Rightarrow> (string \<rightharpoonup> real) \<Rightarrow> (real \<times> fs_event) list
     \<Rightarrow> ((string \<rightharpoonup> real) \<times> action option) list" where
  "run_events should_ignore path_str last_event [] = []"
| "run_events should_ignore path_str last_event ((now, event) # rest) =
     (case dispatch should_ignore path_str now last_event event of
        (last_event', act) \<Rightarrow>
          (last_event', act) # run_events should_ignore path_str last_event' rest)"

subsection \<open>Predicates and an example for the properties\<close>

text \<open>
  The timestamp \<open>_is_debounced\<close> reads for a path: \<open>_last_event.get(path, 0)\<close>.
\<close>

definition last_seen :: "(string \<rightharpoonup> real) \<Rightarrow> string \<Rightarrow> real" where
  "last_seen last_event path = (case last_event path of Some t \<Rightarrow> t | None \<Rightarrow> 0)"

text \<open>The event led to \<open>_process_file\<close>: it was accepted.\<close>

definition processed :: "(string \<rightharpoonup> real) \<times> action option \<Rightarrow> bool" where
  "processed outcome = (case snd outcome of Some (ProcessFile _) \<Rightarrow> True | _ \<Rightarrow> False)"

text \<open>The dictionary before the event at position \<open>j\<close> of a run that started in \<open>last_event\<close>.\<close>

definition state_before ::
  "(string \<rightharpoonup> real) \<Rightarrow> ((string \<rightharpoonup> real) \<times> action option) list \<Rightarrow> nat \<Rightarrow> (string \<rightharpoonup> real)" where
  "state_before last_event outcomes j = (if j = 0 then last_event else fst (outcomes ! (j - 1)))"

text \<open>
  A burst on one file: a modification, then within the same second another
  modification, a deletion and a creation, and two seconds after the first a
  modification again.
\<close>

definition burst :: "(real \<times> fs_event) list" where
  "burst =
     [(1000, \<lparr>ev_kind = Modified, ev_is_directory = False, ev_src_path = ''/p/a.py''\<rparr>),
      (1000.25, \<lparr>ev_kind = Modified, ev_is_directory = False, ev_src_path = ''/p/a.py''\<rparr>),
      (1000.5, \<lparr>ev_kind = Deleted, ev_is_directory = False, ev_src_path = ''/p/a.py''\<rparr>),
      (1000.75, \<lparr>ev_kind = Created, ev_is_directory = False, ev_src_path = ''/p/a.py''\<rparr>),
      (1002, \<lparr>ev_kind = Modified, ev_is_directory = False, ev_src_path = ''/p/a.py''\<rparr>)]"

section \<open>Properties of the history store\<close>

subsection \<open>Reading the tables after a write\<close>

lemma snapshots_update_registry [simp]:
  "snapshots (update_registry db p v now) = snapshots db"
  by (simp add: update_registry_def)

lemma snapshots_insert_registry [simp]:
  "snapshots (insert_registry db row) = snapshots db"
  by (simp add: insert_registry_def)

lemma select_snapshot_update_registry [simp]:
  "select_snapshot (update_registry db p v now) q w = select_snapshot db q w"
  by (simp add: select_snapshot_def)

lemma select_snapshot_insert_registry [simp]:
  "select_snapshot (insert_registry db row) q w = select_snapshot db q w"
  by (simp add: select_snapshot_def)

lemma find_map_update:
  "find (\<lambda>r. reg_file_path r = p)
        (map (\<lambda>r. if reg_file_path r = p then r\<lparr>reg_current_version := v, reg_last_modified := n\<rparr> else r) xs)
   = map_option (\<lambda>r. r\<lparr>reg_current_version := v, reg_last_modified := n\<rparr>)
       (find (\<lambda>r. reg_file_path r = p) xs)"
  by (induction xs) auto

lemma find_map_update_other:
  "q \<noteq> p \<Longrightarrow> find (\<lambda>r. reg_file_path r = q)
        (map (\<lambda>r. if reg_file_path r = p then r\<lparr>reg_current_version := v, reg_last_modified := n\<rparr> else r) xs)
   = find (\<lambda>r. reg_file_path r = q) xs"
  by (induction xs) auto

lemma select_registry_update_registry:
  "select_registry (update_registry db p v now) p =
     map_option (\<lambda>r. r\<lparr>reg_current_version := v, reg_last_modified := now\<rparr>) (select_registry db p)"
  by (simp add: select_registry_def update_registry_def find_map_update)

lemma select_registry_update_registry_other:
  "q \<noteq> p \<Longrightarrow> select_registry (update_registry db p v now) q = select_registry db q"
  by (simp add: select_registry_def update_registry_def find_map_update_other)

lemma find_append:
  "find P (xs @ ys) = (case find P xs of Some x \<Rightarrow> Some x | None \<Rightarrow> find P ys)"
  by (induction xs) auto

lemma select_registry_insert_registry:
  "select_registry (insert_registry db row) q =
     (case select_registry db q of Some r \<Rightarrow> Some r
      | None \<Rightarrow> if reg_file_path row = q then Some row else None)"
  by (auto simp: select_registry_def insert_registry_def find_append split: option.splits)

lemma insert_snapshot_Inr:
  "insert_snapshot db p v c now cs m = Inr db2 \<Longrightarrow>
     file_registry db2 = file_registry db \<and>
     select_snapshot db p v = None \<and>
     (\<exists>row. snapshots db2 = snapshots db @ [row] \<and> snap_file_path row = p \<and> snap_version row = v
        \<and> snap_checksum row = cs \<and> snap_content row = c)"
  by (auto simp: insert_snapshot_def select_snapshot_def find_None_iff split: if_splits)

lemma insert_snapshot_Inl:
  "insert_snapshot db p v c now cs m = Inl e \<Longrightarrow> e = IntegrityError \<and> select_snapshot db p v \<noteq> None"
  by (auto simp: insert_snapshot_def select_snapshot_def find_None_iff split: if_splits)

lemma select_snapshot_after_insert:
  "insert_snapshot db p v c now cs m = Inr db2 \<Longrightarrow>
     \<exists>row. select_snapshot db2 p v = Some row \<and> snap_checksum row = cs \<and> snap_content row = c"
proof -
  assume a: "insert_snapshot db p v c now cs m = Inr db2"
  then have "select_snapshot db p v = None"
    by (auto simp: insert_snapshot_def select_snapshot_def find_None_iff split: if_splits)
  with a show ?thesis
    by (auto simp: insert_snapshot_def select_snapshot_def find_append split: if_splits)
qed

lemma select_registry_after_insert_snapshot:
  "insert_snapshot db p v c now cs m = Inr db2 \<Longrightarrow> select_registry db2 q = select_registry db q"
  by (auto simp: insert_snapshot_def select_registry_def split: if_splits)

subsection \<open>The invariant of the store\<close>

text \<open>
  \<open>store_inv\<close> holds of the empty store and is kept by \<open>snapshot_file\<close> (also when it
  raises) and by \<open>restore_to_version\<close>, so it holds of every store these operations
  build. \<open>store2\<close>, the example store of the witnesses, is built by two snapshots.
\<close>

lemma select_registry_not_None_update:
  "select_registry db q \<noteq> None \<Longrightarrow> select_registry (update_registry db p v now) q \<noteq> None"
  by (cases "q = p") (simp_all add: select_registry_update_registry select_registry_update_registry_other)

lemma select_registry_not_None_insert:
  "select_registry db q \<noteq> None \<Longrightarrow> select_registry (insert_registry db row) q \<noteq> None"
  by (auto simp: select_registry_insert_registry)

lemma store_inv_update_registry:
  assumes "store_inv H db"
  shows "store_inv H (update_registry db p v now)"
proof -
  have "select_registry (update_registry db p v now) q \<noteq> None"
    if "select_registry db q \<noteq> None" for q
    using that by (rule select_registry_not_None_update)
  with assms show ?thesis
    by (simp add: store_inv_def list_all_iff)
qed

lemma store_inv_insert_registry:
  assumes "store_inv H db"
  shows "store_inv H (insert_registry db row)"
proof -
  have "select_registry (insert_registry db row) q \<noteq> None"
    if "select_registry db q \<noteq> None" for q
    using that by (rule select_registry_not_None_insert)
  with assms show ?thesis
    by (simp add: store_inv_def list_all_iff)
qed

lemma store_inv_insert_snapshot:
  assumes "store_inv H db" and "select_registry db p \<noteq> None"
      and "insert_snapshot db p v c now (H c) m = Inr db2"
  shows "store_inv H db2"
proof -
  from insert_snapshot_Inr [OF assms(3)] obtain row where
    row: "snapshots db2 = snapshots db @ [row]" "snap_file_path row = p"
         "snap_checksum row = H c" "snap_content row = c"
    by auto
  have reg: "select_registry db2 q = select_registry db q" for q
    using assms(3) by (rule select_registry_after_insert_snapshot)
  show ?thesis
    using assms(1,2) row by (auto simp: store_inv_def list_all_iff reg)
qed

lemma store_inv_empty: "store_inv H empty_db"
  by (simp add: store_inv_def empty_db_def)

lemma store_inv_restore_to_version:
  "store_inv H db \<Longrightarrow> store_inv H (fst (restore_to_version now db p v))"
  by (auto simp: restore_to_version_def store_inv_update_registry split: option.splits)

lemma store_inv_snapshot_file:
  assumes "store_inv H db"
  shows "store_inv H (fst (snapshot_file H now db p c l f m))"
proof (cases "select_registry db p")
  case None
  define db1 where "db1 = insert_registry db \<lparr>reg_file_path = p, reg_current_version = 1,
                       reg_first_seen = now, reg_last_modified = now,
                       reg_language = l, reg_folder = f\<rparr>"
  have inv1: "store_inv H db1"
    using assms by (simp add: db1_def store_inv_insert_registry)
  have reg1: "select_registry db1 p \<noteq> None"
    using None by (simp add: db1_def select_registry_insert_registry)
  show ?thesis
  proof (cases "insert_snapshot db1 p 1 c now (H c) m")
    case (Inl e)
    with None inv1 show ?thesis
      by (simp add: snapshot_file_def db1_def)
  next
    case (Inr db2)
    with None store_inv_insert_snapshot [OF inv1 reg1 Inr] show ?thesis
      by (simp add: snapshot_file_def db1_def)
  qed
next
  case (Some row)
  define db1 where "db1 = update_registry db p (reg_current_version row + 1) now"
  have inv1: "store_inv H db1"
    using assms by (simp add: db1_def store_inv_update_registry)
  have reg1: "select_registry db1 p \<noteq> None"
    using Some by (simp add: db1_def select_registry_update_registry)
  show ?thesis
  proof (cases "insert_snapshot db1 p (reg_current_version row + 1) c now (H c) m")
    case (Inl e)
    with Some inv1 assms show ?thesis
      by (simp add: snapshot_file_def db1_def Let_def)
  next
    case (Inr db2)
    with Some assms store_inv_insert_snapshot [OF inv1 reg1 Inr] show ?thesis
      by (simp add: snapshot_file_def db1_def Let_def)
  qed
qed

lemma store_inv_snapshot_in:
  assumes "store_inv H db" and "select_snapshot db p v = Some s"
  shows "snap_checksum s = H (snap_content s) \<and> select_registry db p \<noteq> None"
proof -
  from assms(2) have "s \<in> set (snapshots db)" and "snap_file_path s = p"
    by (auto simp: select_snapshot_def find_Some_iff)
  with assms(1) show ?thesis
    by (auto simp: store_inv_def list_all_iff)
qed

lemma store2_reached:
  "fst (snapshot_file (\<lambda>s. s) 200
          (fst (snapshot_file (\<lambda>s. s) 100 empty_db ''a.py'' ''x = 1'' ''python'' ''.'' None))
          ''a.py'' ''x = 2'' ''python'' ''.'' None) = store2"
  by (simp add: snapshot_file_def empty_db_def store2_def select_registry_def select_snapshot_def
      insert_registry_def insert_snapshot_def update_registry_def next_id_def Let_def)

lemma store_pkgs_reached:
  "fst (snapshot_file (\<lambda>s. s) 200
          (fst (snapshot_file (\<lambda>s. s) 100 empty_db ''my_pkg/a.py'' ''a = 1'' ''python'' ''my_pkg''
                  None))
          ''my-pkg/b.py'' ''b = 1'' ''python'' ''my-pkg'' None) = store_pkgs"
  by (simp add: snapshot_file_def empty_db_def store_pkgs_def select_registry_def
      select_snapshot_def insert_registry_def insert_snapshot_def next_id_def Let_def)

lemma store2_inv: "store_inv (\<lambda>s. s) store2"
  by (simp add: store_inv_def store2_def select_registry_def)

subsection \<open>Restore, then snapshot the restored content\<close>

text \<open>
  Claim C2. For every file path \<open>p\<close> and every version \<open>v\<close> that has a stored snapshot,
  in a store that satisfies the invariant: \<open>restore_to_version(p, v)\<close> succeeds, and a
  following \<open>snapshot_file(p, get_snapshot(p, v))\<close> returns \<open>v\<close>, leaves the registry's
  current version at \<open>v\<close> and the store as it was after the restore: no snapshot row
  is inserted.
\<close>

theorem restore_then_snapshot_is_noop:
  assumes "store_inv H db" and "get_snapshot db p v = Some c"
  shows "snd (restore_to_version now1 db p v) \<and>
         get_snapshot (fst (restore_to_version now1 db p v)) p v = Some c \<and>
         snapshot_file H now2 (fst (restore_to_version now1 db p v)) p c l f m =
           (fst (restore_to_version now1 db p v), Inr v) \<and>
         get_latest_version (fst (restore_to_version now1 db p v)) p = v \<and>
         snapshots (fst (restore_to_version now1 db p v)) = snapshots db"
proof -
  from assms(2) obtain s where s: "select_snapshot db p v = Some s" and c: "snap_content s = c"
    by (auto simp: get_snapshot_def)
  from store_inv_snapshot_in [OF assms(1) s] c obtain row where
    cs: "snap_checksum s = H c" and row: "select_registry db p = Some row"
    by auto
  define db1 where "db1 = update_registry db p v now1"
  have r: "restore_to_version now1 db p v = (db1, True)"
    using s by (simp add: restore_to_version_def db1_def)
  have reg1: "select_registry db1 p = Some (row\<lparr>reg_current_version := v, reg_last_modified := now1\<rparr>)"
    using row by (simp add: db1_def select_registry_update_registry)
  have snap1: "select_snapshot db1 p v = Some s"
    using s by (simp add: db1_def)
  have "snapshot_file H now2 db1 p c l f m = (db1, Inr v)"
    using reg1 snap1 cs by (simp add: snapshot_file_def)
  moreover have "get_snapshot db1 p v = Some c"
    using snap1 c by (simp add: get_snapshot_def)
  moreover have "get_latest_version db1 p = v"
    using reg1 by (simp add: get_latest_version_def)
  moreover have "snapshots db1 = snapshots db"
    by (simp add: db1_def)
  ultimately show ?thesis
    using r by simp
qed

theorem restore_then_snapshot_is_noop_witness:
  "store_inv (\<lambda>s. s) store2 \<and> get_snapshot store2 ''a.py'' 1 = Some ''x = 1'' \<and>
   snd (restore_to_version 300 store2 ''a.py'' 1) \<and>
   snapshot_file (\<lambda>s. s) 400 (fst (restore_to_version 300 store2 ''a.py'' 1)) ''a.py'' ''x = 1''
       ''python'' ''.'' None =
     (fst (restore_to_version 300 store2 ''a.py'' 1), Inr 1) \<and>
   get_latest_version (fst (restore_to_version 300 store2 ''a.py'' 1)) ''a.py'' = 1 \<and>
   get_latest_version store2 ''a.py'' = 2"
proof -
  have h1: "store_inv (\<lambda>s. s) store2"
    by (simp add: store_inv_def store2_def select_registry_def)
  have h2: "get_snapshot store2 ''a.py'' 1 = Some ''x = 1''"
    by (simp add: get_snapshot_def select_snapshot_def store2_def)
  have h3: "get_latest_version store2 ''a.py'' = 2"
    by (simp add: get_latest_version_def select_registry_def store2_def)
  show ?thesis
    using restore_then_snapshot_is_noop [OF h1 h2, of 300 400 "''python''" "''.''" None] h1 h2 h3
    by simp
qed

subsection \<open>Snapshotting the same content twice\<close>

text \<open>
  Claim C3, as stated, fails where the content already is the snapshot at the current
  version: in \<open>store2\<close> the file \<open>a.py\<close> is at version 2 with content \<open>x = 2\<close>, two calls
  in a row with that content both return 2 and neither writes a row, so the two calls
  do not write exactly one row.
\<close>

theorem snapshot_file_repeat_counterexample:
  "snapshot_file (\<lambda>s. s) 300 store2 ''a.py'' ''x = 2'' ''python'' ''.'' None = (store2, Inr 2) \<and>
   snapshot_file (\<lambda>s. s) 400 store2 ''a.py'' ''x = 2'' ''python'' ''.'' None = (store2, Inr 2) \<and>
   length (snapshots store2) \<noteq> length (snapshots store2) + 1"
  by (simp add: snapshot_file_def store2_def select_registry_def select_snapshot_def Let_def)

text \<open>
  Claim C3, amended. Whenever a call of \<open>snapshot_file\<close> returns a version \<open>v\<close>, a second
  call in a row with the same content returns \<open>v\<close> again and leaves the whole store, the
  snapshot table and the current version with it, unchanged. The two calls together
  write exactly one snapshot row when the content's checksum differed from the snapshot
  at the current version before the first call (or the file was untracked), and none
  when it already matched.
\<close>

theorem snapshot_file_repeat_is_noop:
  assumes "snapshot_file H now1 db p c l f m = (db1, Inr v)"
  shows "snapshot_file H now2 db1 p c l2 f2 m2 = (db1, Inr v) \<and>
         length (snapshots db1) =
           length (snapshots db) + (if content_unchanged H db p c then 0 else 1)"
proof (cases "content_unchanged H db p c")
  case True
  then obtain row s where row: "select_registry db p = Some row"
    and s: "select_snapshot db p (reg_current_version row) = Some s"
    and cs: "snap_checksum s = H c"
    by (auto simp: content_unchanged_def split: option.splits)
  with assms have "db1 = db" and "v = reg_current_version row"
    by (simp_all add: snapshot_file_def)
  with row s cs True show ?thesis
    by (simp add: snapshot_file_def)
next
  case False
  obtain db0 where ins: "insert_snapshot db0 p v c now1 (H c) m = Inr db1"
    and reg0: "\<exists>row. select_registry db0 p = Some row \<and> reg_current_version row = v"
    and snaps0: "snapshots db0 = snapshots db"
  proof (cases "select_registry db p")
    case None
    with assms have "insert_snapshot (insert_registry db \<lparr>reg_file_path = p, reg_current_version = 1,
                       reg_first_seen = now1, reg_last_modified = now1,
                       reg_language = l, reg_folder = f\<rparr>) p v c now1 (H c) m = Inr db1"
      by (auto simp: snapshot_file_def Let_def split: sum.splits)
    moreover from None assms have "v = 1"
      by (auto simp: snapshot_file_def Let_def split: sum.splits)
    ultimately show ?thesis
      using None that by (simp add: select_registry_insert_registry)
  next
    case (Some row)
    with assms False have "insert_snapshot (update_registry db p (reg_current_version row + 1) now1)
           p v c now1 (H c) m = Inr db1" and "v = reg_current_version row + 1"
      by (auto simp: snapshot_file_def content_unchanged_def Let_def
          split: sum.splits option.splits if_splits)
    then show ?thesis
      using Some that by (simp add: select_registry_update_registry)
  qed
  from reg0 obtain row where row: "select_registry db1 p = Some row" "reg_current_version row = v"
    using select_registry_after_insert_snapshot [OF ins] by auto
  from select_snapshot_after_insert [OF ins] obtain s where
    s: "select_snapshot db1 p v = Some s" "snap_checksum s = H c"
    by auto
  have "snapshot_file H now2 db1 p c l2 f2 m2 = (db1, Inr v)"
    using row s by (simp add: snapshot_file_def)
  moreover have "length (snapshots db1) = length (snapshots db) + 1"
    using insert_snapshot_Inr [OF ins] snaps0 by auto
  ultimately show ?thesis
    using False by simp
qed

theorem snapshot_file_repeat_is_noop_witness:
  "snapshot_file (\<lambda>s. s) 300 store2 ''a.py'' ''x = 3'' ''python'' ''.'' None =
     (fst (snapshot_file (\<lambda>s. s) 300 store2 ''a.py'' ''x = 3'' ''python'' ''.'' None), Inr 3) \<and>
   snapshot_file (\<lambda>s. s) 400
       (fst (snapshot_file (\<lambda>s. s) 300 store2 ''a.py'' ''x = 3'' ''python'' ''.'' None))
       ''a.py'' ''x = 3'' ''python'' ''.'' None =
     (fst (snapshot_file (\<lambda>s. s) 300 store2 ''a.py'' ''x = 3'' ''python'' ''.'' None), Inr 3) \<and>
   length (snapshots (fst (snapshot_file (\<lambda>s. s) 300 store2 ''a.py'' ''x = 3'' ''python'' ''.'' None)))
     = 3 \<and>
   length (snapshots store2) = 2"
proof -
  have h: "snapshot_file (\<lambda>s. s) 300 store2 ''a.py'' ''x = 3'' ''python'' ''.'' None =
     (fst (snapshot_file (\<lambda>s. s) 300 store2 ''a.py'' ''x = 3'' ''python'' ''.'' None), Inr 3)"
    by (simp add: snapshot_file_def store2_def select_registry_def select_snapshot_def
        update_registry_def insert_snapshot_def Let_def)
  have u: "\<not> content_unchanged (\<lambda>s. s) store2 ''a.py'' ''x = 3''"
    by (simp add: content_unchanged_def store2_def select_registry_def select_snapshot_def)
  have n: "length (snapshots store2) = 2"
    by (simp add: store2_def)
  show ?thesis
    using snapshot_file_repeat_is_noop [OF h, of 400 "''python''" "''.''" None] h u n
    by simp
qed

subsection \<open>New content advances the version by one\<close>

text \<open>
  Claim C4. Every \<open>snapshot_file\<close> call that returns a version, with content whose
  checksum is not that of the snapshot at the file's current version (or with an
  untracked file, whose current version reads 0), leaves the registry's current
  version exactly 1 greater than before the call, and returns that version.
\<close>

theorem snapshot_file_new_content_increments:
  assumes "snapshot_file H now db p c l f m = (db', Inr v)"
      and "\<not> content_unchanged H db p c"
  shows "get_latest_version db' p = get_latest_version db p + 1 \<and> v = get_latest_version db p + 1"
proof (cases "select_registry db p")
  case None
  with assms(1) obtain db1 where
    ins: "insert_snapshot db1 p 1 c now (H c) m = Inr db'" and v: "v = 1"
    and db1: "db1 = insert_registry db \<lparr>reg_file_path = p, reg_current_version = 1,
                       reg_first_seen = now, reg_last_modified = now,
                       reg_language = l, reg_folder = f\<rparr>"
    by (auto simp: snapshot_file_def Let_def split: sum.splits)
  have "select_registry db' p = select_registry db1 p"
    using ins by (rule select_registry_after_insert_snapshot)
  with None db1 v show ?thesis
    by (simp add: get_latest_version_def select_registry_insert_registry)
next
  case (Some row)
  with assms obtain db1 where
    ins: "insert_snapshot db1 p (reg_current_version row + 1) c now (H c) m = Inr db'"
    and v: "v = reg_current_version row + 1"
    and db1: "db1 = update_registry db p (reg_current_version row + 1) now"
    by (auto simp: snapshot_file_def content_unchanged_def Let_def split: sum.splits option.splits if_splits)
  have "select_registry db' p = select_registry db1 p"
    using ins by (rule select_registry_after_insert_snapshot)
  with Some db1 v show ?thesis
    by (simp add: get_latest_version_def select_registry_update_registry)
qed

theorem snapshot_file_new_content_increments_witness:
  "snapshot_file (\<lambda>s. s) 300 store2 ''a.py'' ''x = 3'' ''python'' ''.'' None =
     (fst (snapshot_file (\<lambda>s. s) 300 store2 ''a.py'' ''x = 3'' ''python'' ''.'' None), Inr 3) \<and>
   \<not> content_unchanged (\<lambda>s. s) store2 ''a.py'' ''x = 3'' \<and>
   get_latest_version store2 ''a.py'' = 2 \<and>
   get_latest_version (fst (snapshot_file (\<lambda>s. s) 300 store2 ''a.py'' ''x = 3'' ''python'' ''.'' None))
     ''a.py'' = 3"
proof -
  have h: "snapshot_file (\<lambda>s. s) 300 store2 ''a.py'' ''x = 3'' ''python'' ''.'' None =
     (fst (snapshot_file (\<lambda>s. s) 300 store2 ''a.py'' ''x = 3'' ''python'' ''.'' None), Inr 3)"
    by (simp add: snapshot_file_def store2_def select_registry_def select_snapshot_def
        update_registry_def insert_snapshot_def Let_def)
  have u: "\<not> content_unchanged (\<lambda>s. s) store2 ''a.py'' ''x = 3''"
    by (simp add: content_unchanged_def store2_def select_registry_def select_snapshot_def)
  have n: "get_latest_version store2 ''a.py'' = 2"
    by (simp add: get_latest_version_def store2_def select_registry_def)
  show ?thesis
    using snapshot_file_new_content_increments [OF h u] h u n
    by simp
qed

subsection \<open>A snapshot after a rewind collides with the later version\<close>

text \<open>
  Claim C5. When \<open>restore_to_version(p, v)\<close> has rewound a tracked file to \<open>v\<close> while a
  snapshot of version \<open>v + 1\<close> exists (restore deletes nothing), a following
  \<open>snapshot_file(p, c)\<close> whose checksum differs from that of snapshot \<open>v\<close> tries to
  insert the key \<open>(p, v + 1)\<close> again: the call raises \<open>IntegrityError\<close> instead of
  returning a version, and the snapshot table holds the rows it held before.
\<close>

theorem snapshot_after_rewind_raises:
  assumes "select_registry db p \<noteq> None"
      and "restore_to_version now1 db p v = (db1, True)"
      and "select_snapshot db p (v + 1) \<noteq> None"
      and "\<forall>s. select_snapshot db p v = Some s \<longrightarrow> snap_checksum s \<noteq> H c"
  shows "snd (snapshot_file H now2 db1 p c l f m) = Inl IntegrityError \<and>
         snapshots (fst (snapshot_file H now2 db1 p c l f m)) = snapshots db \<and>
         snapshots db1 = snapshots db"
proof -
  from assms(2) obtain s where s: "select_snapshot db p v = Some s"
    and db1: "db1 = update_registry db p v now1"
    by (auto simp: restore_to_version_def split: option.splits)
  from assms(1) obtain row where row: "select_registry db p = Some row"
    by auto
  have reg1: "select_registry db1 p = Some (row\<lparr>reg_current_version := v, reg_last_modified := now1\<rparr>)"
    using row by (simp add: db1 select_registry_update_registry)
  have snap1: "select_snapshot db1 p v = Some s"
    using s by (simp add: db1)
  have neq: "snap_checksum s \<noteq> H c"
    using assms(4) s by simp
  have "\<exists>r \<in> set (snapshots db). snap_file_path r = p \<and> snap_version r = v + 1"
    using assms(3) by (auto simp: select_snapshot_def find_None_iff)
  then have "insert_snapshot (update_registry db1 p (v + 1) now2) p (v + 1) c now2 (H c) m
             = Inl IntegrityError"
    by (simp add: insert_snapshot_def db1)
  then have "snapshot_file H now2 db1 p c l f m = (update_registry db1 p (v + 1) now2, Inl IntegrityError)"
    using reg1 snap1 neq by (simp add: snapshot_file_def)
  then show ?thesis
    by (simp add: db1)
qed

theorem snapshot_after_rewind_raises_witness:
  "select_registry store2 ''a.py'' \<noteq> None \<and>
   restore_to_version 300 store2 ''a.py'' 1 = (fst (restore_to_version 300 store2 ''a.py'' 1), True) \<and>
   select_snapshot store2 ''a.py'' (1 + 1) \<noteq> None \<and>
   snd (snapshot_file (\<lambda>s. s) 400 (fst (restore_to_version 300 store2 ''a.py'' 1))
          ''a.py'' ''x = 3'' ''python'' ''.'' None) = Inl IntegrityError \<and>
   snapshots (fst (snapshot_file (\<lambda>s. s) 400 (fst (restore_to_version 300 store2 ''a.py'' 1))
          ''a.py'' ''x = 3'' ''python'' ''.'' None)) = snapshots store2"
proof -
  have h1: "select_registry store2 ''a.py'' \<noteq> None"
    by (simp add: select_registry_def store2_def)
  have h2: "restore_to_version 300 store2 ''a.py'' 1 =
              (fst (restore_to_version 300 store2 ''a.py'' 1), True)"
    by (simp add: restore_to_version_def select_snapshot_def store2_def)
  have h3: "select_snapshot store2 ''a.py'' (1 + 1) \<noteq> None"
    by (simp add: select_snapshot_def store2_def)
  have h4: "\<forall>s. select_snapshot store2 ''a.py'' 1 = Some s \<longrightarrow> snap_checksum s \<noteq> (\<lambda>s. s) ''x = 3''"
    by (simp add: select_snapshot_def store2_def)
  show ?thesis
    using snapshot_after_rewind_raises
            [where H = "\<lambda>s. s" and c = "''x = 3''" and ?now2.0 = 400 and l = "''python''"
               and f = "''.''" and m = None, OF h1 h2 h3 h4] h1 h2 h3
    by simp
qed

subsection \<open>Listing the files of a folder\<close>

text \<open>
  Claim C9 says that \<open>list_files_in_folder\<close> returns exactly the tracked paths that
  extend the prefix at a segment boundary. The query hands the prefix to \<open>LIKE\<close>
  unescaped, so an underscore in it matches any character: with \<open>my_pkg/a.py\<close> and
  \<open>my-pkg/b.py\<close> tracked, the prefix \<open>my_pkg\<close> returns both, although \<open>my-pkg/b.py\<close>
  does not start with \<open>my_pkg/\<close>.
\<close>

theorem list_files_in_folder_wildcard: "list_files_in_folder store_pkgs ''my_pkg'' = [''my-pkg/b.py'', ''my_pkg/a.py'']"
  by (simp add: list_files_in_folder_def store_pkgs_def rstrip_slash_def ascii_lower_def)

text \<open>
  The example of the specification holds: the prefix \<open>src\<close> finds \<open>src/x.py\<close> and not
  \<open>srcx.py\<close>. The match ignores the case of ASCII letters, as \<open>LIKE\<close> does by
  default: the prefix \<open>src\<close> also finds \<open>SRC/x.py\<close>.
\<close>

lemma list_files_in_folder_segment_boundary:
  "list_files_in_folder
     \<lparr>snapshots = [],
      file_registry =
        [\<lparr>reg_file_path = ''srcx.py'', reg_current_version = 1, reg_first_seen = 1,
          reg_last_modified = 1, reg_language = ''python'', reg_folder = ''.''\<rparr>,
         \<lparr>reg_file_path = ''src/x.py'', reg_current_version = 1, reg_first_seen = 2,
          reg_last_modified = 2, reg_language = ''python'', reg_folder = ''src''\<rparr>]\<rparr>
     ''src'' = [''src/x.py'']"
  by (simp add: list_files_in_folder_def rstrip_slash_def ascii_lower_def)

lemma list_files_in_folder_ignores_case:
  "list_files_in_folder
     \<lparr>snapshots = [],
      file_registry =
        [\<lparr>reg_file_path = ''SRC/x.py'', reg_current_version = 1, reg_first_seen = 1,
          reg_last_modified = 1, reg_language = ''python'', reg_folder = ''SRC''\<rparr>]\<rparr>
     ''src'' = [''SRC/x.py'']"
  by code_simp

section \<open>Properties of the chunker\<close>

subsection \<open>The three cases of one loop iteration\<close>

lemma line_ranges_Cons [simp]:
  "line_ranges ((t, i, s, e) # cs) = (s, e) # line_ranges cs"
  by (simp add: line_ranges_def line_range_def)

lemma line_ranges_Nil [simp]: "line_ranges [] = []"
  by (simp add: line_ranges_def)

lemma chunk_loop_stop:
  "\<not> start < int (length lines) \<Longrightarrow> chunk_loop lines chunk_size overlap idx start = []"
  by (simp add: chunk_loop.simps [of lines chunk_size overlap idx start])

lemma chunk_loop_trailing:
  assumes "start < int (length lines)"
      and "start + max (chunk_size - overlap) 1 < int (length lines)"
      and "int (length lines) - (start + max (chunk_size - overlap) 1) \<le> overlap"
  shows "chunk_loop lines chunk_size overlap idx start =
         [(concat (py_slice lines start (min (start + chunk_size) (int (length lines)))),
           idx, start + 1, min (start + chunk_size) (int (length lines))),
          (concat (py_slice lines (start + max (chunk_size - overlap) 1) (int (length lines))),
           idx + 1, start + max (chunk_size - overlap) 1 + 1, int (length lines))]"
  using assms
  by (simp only: chunk_loop.simps [of lines chunk_size overlap idx start] Let_def if_True simp_thms)

lemma chunk_loop_continue:
  assumes "start < int (length lines)"
      and "\<not> (start + max (chunk_size - overlap) 1 < int (length lines) \<and>
              int (length lines) - (start + max (chunk_size - overlap) 1) \<le> overlap)"
  shows "chunk_loop lines chunk_size overlap idx start =
         (concat (py_slice lines start (min (start + chunk_size) (int (length lines)))),
          idx, start + 1, min (start + chunk_size) (int (length lines)))
         # chunk_loop lines chunk_size overlap (idx + 1) (start + max (chunk_size - overlap) 1)"
  using assms
  by (simp only: chunk_loop.simps [of lines chunk_size overlap idx start] Let_def if_True if_False
      simp_thms)

subsection \<open>The ranges the loop emits from a given start\<close>

lemma chunk_loop_ranges:
  assumes "0 \<le> overlap" and "overlap < chunk_size" and "0 \<le> start" and "start < int (length lines)"
  shows "line_ranges (chunk_loop lines chunk_size overlap idx start) \<noteq> [] \<and>
         fst (hd (line_ranges (chunk_loop lines chunk_size overlap idx start))) = start + 1 \<and>
         snd (hd (line_ranges (chunk_loop lines chunk_size overlap idx start))) =
           min (start + chunk_size) (int (length lines)) \<and>
         snd (last (line_ranges (chunk_loop lines chunk_size overlap idx start))) = int (length lines) \<and>
         (\<Union>r \<in> set (line_ranges (chunk_loop lines chunk_size overlap idx start)). {fst r..snd r})
           = {start + 1..int (length lines)} \<and>
         ranges_chained (line_ranges (chunk_loop lines chunk_size overlap idx start)) \<and>
         overlaps_ok overlap (line_ranges (chunk_loop lines chunk_size overlap idx start))"
  using assms
proof (induction lines chunk_size overlap idx start rule: chunk_loop.induct)
  case (1 lines chunk_size overlap idx start)
  let ?total = "int (length lines)"
  let ?next = "start + max (chunk_size - overlap) 1"
  have step: "?next = start + chunk_size - overlap"
    using "1.prems" by simp
  show ?case
  proof (cases "?next < ?total \<and> ?total - ?next \<le> overlap")
    case True
    then have "chunk_loop lines chunk_size overlap idx start =
        [(concat (py_slice lines start (min (start + chunk_size) ?total)),
                idx, start + 1, min (start + chunk_size) ?total),
         (concat (py_slice lines ?next ?total), idx + 1, ?next + 1, ?total)]"
      using "1.prems" by (simp add: chunk_loop_trailing)
    moreover have "min (start + chunk_size) ?total = ?total"
      using True step by simp
    ultimately show ?thesis
      using True "1.prems" step by (auto simp: shared_lines_def)
  next
    case False
    have eq: "chunk_loop lines chunk_size overlap idx start =
        (concat (py_slice lines start (min (start + chunk_size) ?total)),
               idx, start + 1, min (start + chunk_size) ?total)
              # chunk_loop lines chunk_size overlap (idx + 1) ?next"
      using "1.prems"(4) False by (rule chunk_loop_continue)
    show ?thesis
    proof (cases "?next < ?total")
      case next_lt: True
      with False have far: "overlap < ?total - ?next"
        by simp
      have nn: "0 \<le> ?next"
        using "1.prems" by simp
      note IH = "1.IH" [OF refl refl "1.prems"(4) refl refl refl refl False "1.prems"(1)
          "1.prems"(2) nn next_lt]
      let ?rest = "line_ranges (chunk_loop lines chunk_size overlap (idx + 1) ?next)"
      from IH obtain r rs where rest: "?rest = r # rs"
        by (cases ?rest) auto
      with IH have r: "fst r = ?next + 1" "snd r = min (?next + chunk_size) ?total"
        by auto
      have e: "min (start + chunk_size) ?total = start + chunk_size"
        using far step by simp
      have "ranges_chained ((start + 1, start + chunk_size) # r # rs)"
        using IH rest r step far "1.prems" by auto
      moreover have "overlaps_ok overlap ((start + 1, start + chunk_size) # r # rs)"
        using IH rest r step far by (cases rs) (auto simp: shared_lines_def)
      moreover have "{start + 1..start + chunk_size} \<union> {?next + 1..?total} = {start + 1..?total}"
        using step far "1.prems" by auto
      ultimately show ?thesis
        using IH rest eq e by auto
    next
      case next_ge: False
      then have "chunk_loop lines chunk_size overlap (idx + 1) ?next = []"
        by (simp add: chunk_loop_stop)
      moreover have "min (start + chunk_size) ?total = ?total"
        using next_ge step "1.prems" by simp
      ultimately show ?thesis
        using eq "1.prems" by simp
    qed
  qed
qed

lemma ranges_chained_nth:
  "ranges_chained rs \<Longrightarrow> Suc i < length rs \<Longrightarrow>
     fst (rs ! i) < fst (rs ! Suc i) \<and> fst (rs ! Suc i) \<le> snd (rs ! i) + 1 \<and>
     snd (rs ! i) \<le> snd (rs ! Suc i)"
proof (induction rs arbitrary: i rule: ranges_chained.induct)
  case (1 r1 r2 rs)
  then show ?case
    by (cases i) auto
qed auto

lemma overlaps_ok_nth:
  "overlaps_ok ov rs \<Longrightarrow> Suc i < length rs \<Longrightarrow>
     shared_lines (rs ! i) (rs ! Suc i) = ov \<or>
     (Suc (Suc i) = length rs \<and> snd (rs ! Suc i) - fst (rs ! Suc i) + 1 \<le> ov \<and>
      shared_lines (rs ! i) (rs ! Suc i) = snd (rs ! Suc i) - fst (rs ! Suc i) + 1)"
proof (induction ov rs arbitrary: i rule: overlaps_ok.induct)
  case (1 ov r1 r2 r3 rs)
  then show ?case
    by (cases i) auto
next
  case (2 ov r1 r2)
  then show ?case
    by (cases i) auto
qed auto

lemma splitlines_from_nonempty:
  "cur \<noteq> [] \<or> s \<noteq> [] \<Longrightarrow> splitlines_from cur s \<noteq> []"
  by (induction cur s rule: splitlines_from.induct) auto

lemma splitlines_nonempty: "content \<noteq> [] \<Longrightarrow> splitlines content \<noteq> []"
  by (simp add: splitlines_def splitlines_from_nonempty)

lemma chunk_content_nonblank:
  assumes "\<not> (content = [] \<or> strip_is_empty content)"
  shows "chunk_content content chunk_size overlap =
           chunk_loop (splitlines content) chunk_size overlap 0 0 \<and>
         0 < int (length (splitlines content))"
  using assms splitlines_nonempty [of content] by (simp add: chunk_content_def)

lemma lines25_ranges:
  "line_ranges (chunk_content lines25 10 2) = [(1, 10), (9, 18), (17, 25), (25, 25)]"
  by code_simp

text \<open>
  The example of the specification: 250 lines with the default parameters give the
  two chunks of lines 1 to 200 and 181 to 250.
\<close>

lemma chunk_content_250_lines:
  "line_ranges (chunk_content (concat (replicate 250 ''x\<newline>'')) 200 20) = [(1, 200), (181, 250)]"
  by code_simp

subsection \<open>The trailing window\<close>

text \<open>
  Claim C1 says that a final window of at most \<open>overlap\<close> lines is not emitted as a
  separate chunk: no chunk but the first spans at most \<open>overlap\<close> lines that all lie in
  the range of the chunk before it. On ten lines with \<open>chunk_size = 10\<close> and
  \<open>overlap = 2\<close> the first window already covers lines 1 to 10, and the loop's
  trailing branch still appends the chunk of lines 9 to 10: two lines, both in the
  range of the first chunk.
\<close>

theorem chunk_content_trailing_overlap_chunk:
  "chunk_content ten_lines 10 2 =
     [(ten_lines, 0, 1, 10), (''l9\<newline>l10\<newline>'', 1, 9, 10)]"
  by code_simp

subsection \<open>Coverage and overlap of the line ranges\<close>

text \<open>
  Claim C6, as stated, fails in two ways. Content of two empty lines is
  whitespace-only, so no chunk is returned although the content has two lines; and a
  negative overlap is below every positive chunk size but makes the step larger than
  the window: on ten lines with \<open>chunk_size = 4\<close> and \<open>overlap = -2\<close> lines 5 and 6 are
  in no chunk.
\<close>

theorem chunk_content_covers_lines_counterexample:
  "(20::int) < 200 \<and> length (splitlines ''\<newline>\<newline>'') = 2 \<and>
   line_ranges (chunk_content ''\<newline>\<newline>'' 200 20) = [] \<and>
   (-2::int) < 4 \<and> length (splitlines ten_lines) = 10 \<and>
   line_ranges (chunk_content ten_lines 4 (-2)) = [(1, 4), (7, 10)]"
  by code_simp

text \<open>
  Claim C6, amended. For every content that is neither empty nor whitespace-only and
  every \<open>0 \<le> overlap < chunk_size\<close>, the line ranges of the chunks start at line 1, end
  at the last line, are in order without a gap, and their union is exactly the lines
  \<open>1..lineCount\<close>; every two consecutive chunks share exactly \<open>overlap\<close> lines, except
  that the last chunk may be a trailing one of at most \<open>overlap\<close> lines, which then
  shares all its lines with the chunk before it.
\<close>

theorem chunk_content_covers_lines:
  assumes "0 \<le> overlap" and "overlap < chunk_size"
      and "\<not> (content = [] \<or> strip_is_empty content)"
  shows "let rs = line_ranges (chunk_content content chunk_size overlap);
             total = int (length (splitlines content))
         in rs \<noteq> [] \<and> fst (hd rs) = 1 \<and> snd (last rs) = total \<and>
            (\<Union>r \<in> set rs. {fst r..snd r}) = {1..total} \<and>
            (\<forall>i. Suc i < length rs \<longrightarrow>
                 fst (rs ! i) < fst (rs ! Suc i) \<and> fst (rs ! Suc i) \<le> snd (rs ! i) + 1 \<and>
                 snd (rs ! i) \<le> snd (rs ! Suc i)) \<and>
            (\<forall>i. Suc i < length rs \<longrightarrow>
                 snd (rs ! i) - fst (rs ! Suc i) + 1 = overlap \<or>
                 (Suc (Suc i) = length rs \<and>
                  snd (rs ! Suc i) - fst (rs ! Suc i) + 1 \<le> overlap \<and>
                  snd (rs ! i) - fst (rs ! Suc i) + 1 = snd (rs ! Suc i) - fst (rs ! Suc i) + 1))"
proof -
  from chunk_content_nonblank [OF assms(3)]
  have eq: "chunk_content content chunk_size overlap =
              chunk_loop (splitlines content) chunk_size overlap 0 0"
    and pos: "0 < int (length (splitlines content))"
    by simp_all
  have z: "(0::int) \<le> 0"
    by simp
  note R = chunk_loop_ranges [OF assms(1) assms(2) z pos, of 0, folded eq]
  have chain: "ranges_chained (line_ranges (chunk_content content chunk_size overlap))"
    and ov: "overlaps_ok overlap (line_ranges (chunk_content content chunk_size overlap))"
    using R by simp_all
  show ?thesis
    unfolding Let_def
    using R ranges_chained_nth [OF chain] overlaps_ok_nth [OF ov]
    by (simp add: shared_lines_def)
qed

theorem chunk_content_covers_lines_witness:
  "(0::int) \<le> 2 \<and> (2::int) < 10 \<and> \<not> (lines25 = [] \<or> strip_is_empty lines25) \<and>
   line_ranges (chunk_content lines25 10 2) = [(1, 10), (9, 18), (17, 25), (25, 25)] \<and>
   int (length (splitlines lines25)) = 25 \<and>
   (\<Union>r \<in> set (line_ranges (chunk_content lines25 10 2)). {fst r..snd r}) = {1..25}"
proof -
  have h1: "(0::int) \<le> 2" and h2: "(2::int) < 10"
    by simp_all
  have h3: "\<not> (lines25 = [] \<or> strip_is_empty lines25)"
    by code_simp
  have n: "int (length (splitlines lines25)) = 25"
    by code_simp
  show ?thesis
    using chunk_content_covers_lines [OF h1 h2 h3] h3 n lines25_ranges
    by (simp add: Let_def)
qed

section \<open>Properties of the retrieval pipeline\<close>

subsection \<open>How many results a query returns\<close>






subsection \<open>What a returning call hands on and returns\<close>

text \<open>
  After embedding and retrieval, \<open>ask\<close> is the call of the model on the context of
  the context set. When it returns, it has sent exactly the embedding, the retrieval
  and the generation request for that context, and its result counts the results at
  or above the threshold and lists the context set as sources; and it does return
  when the key is set and the endpoint answers that request.
\<close>

lemma context_set_below_threshold:
  "list_all (\<lambda>r. r_score r < t) results \<Longrightarrow> context_set t results = results"
proof -
  assume "list_all (\<lambda>r. r_score r < t) results"
  then have "filter (\<lambda>r. r_score r \<ge> t) results = []"
    by (induction results) auto
  then show ?thesis
    by (simp add: context_set_def)
qed


lemma call_zai_returns:
  assumes "call_zai environ chat system_prompt question context config = (sent, Inr reply)"
  shows "\<exists>api_key msg others.
           environ (llm_api_key_env config) = Some api_key \<and> api_key \<noteq> [] \<and>
           chat api_key (sent_model config) (build_messages system_prompt question context)
             = Inr (msg # others) \<and>
           reply = message_text msg \<and>
           sent = [GenerationRequest (sent_model config)
                     (build_messages system_prompt question context)]"
  using assms
  by (auto simp: call_zai_def sent_model_def Let_def
      split: option.splits if_splits sum.splits list.splits)

lemma ask_unfold:
  assumes "embed_query question = Inr emb"
      and "query rnd vs emb folder top_k = Inr results"
  shows "ask rnd environ chat system_prompt fmt3 question config embed_query vs top_k folder
           relevance_threshold =
         (case call_zai environ chat system_prompt question
                 (if context_set (threshold_of rnd relevance_threshold) results = []
                  then ''(No code chunks retrieved.)''
                  else join ''\<newline>\<newline>''
                         (map (context_part fmt3)
                            (context_set (threshold_of rnd relevance_threshold) results)))
                 config of
            (sent_llm, Inl e) \<Rightarrow>
              ([EmbedRequest question, RetrievalRequest emb folder top_k] @ sent_llm, Inl e)
          | (sent_llm, Inr reply) \<Rightarrow>
              ([EmbedRequest question, RetrievalRequest emb folder top_k] @ sent_llm,
               Inr \<lparr>answer = reply,
                    sources = map source_of
                                (context_set (threshold_of rnd relevance_threshold) results),
                    relevant_count =
                      int (length (filter (\<lambda>r. r_score r \<ge> threshold_of rnd relevance_threshold)
                                     results)),
                    total_retrieved = int (length results)\<rparr>))"
  using assms
  by (auto simp: ask_def call_llm_def context_set_def threshold_of_def Let_def
      split: prod.splits sum.splits)

lemma ask_returns_result:
  assumes "embed_query question = Inr emb"
      and "query rnd vs emb folder top_k = Inr results"
      and "ask rnd environ chat system_prompt fmt3 question config embed_query vs top_k folder
             relevance_threshold = (sent, Inr out)"
  shows "sent = [EmbedRequest question, RetrievalRequest emb folder top_k,
                 GenerationRequest (sent_model config)
                   (generation_messages system_prompt fmt3 question
                      (context_set (threshold_of rnd relevance_threshold) results))] \<and>
         sources out = map source_of (context_set (threshold_of rnd relevance_threshold) results) \<and>
         relevant_count out =
           int (length (filter (\<lambda>r. r_score r \<ge> threshold_of rnd relevance_threshold) results)) \<and>
         total_retrieved out = int (length results)"
proof -
  let ?chunks = "context_set (threshold_of rnd relevance_threshold) results"
  let ?ctx = "if ?chunks = [] then ''(No code chunks retrieved.)''
                  else join ''\<newline>\<newline>'' (map (context_part fmt3) ?chunks)"
  obtain sent_llm res where c: "call_zai environ chat system_prompt question ?ctx config
      = (sent_llm, res)"
    by (cases "call_zai environ chat system_prompt question ?ctx config")
  note unfolded = ask_unfold
    [where embed_query = embed_query and question = question and environ = environ
       and chat = chat and system_prompt = system_prompt and ?fmt3.0 = fmt3 and config = config
       and relevance_threshold = relevance_threshold, OF assms(1,2)]
  with c assms(3) obtain reply where res: "res = Inr reply"
    and sent: "sent = [EmbedRequest question, RetrievalRequest emb folder top_k] @ sent_llm"
    and out: "out = \<lparr>answer = reply, sources = map source_of ?chunks,
                    relevant_count =
                      int (length (filter (\<lambda>r. r_score r \<ge> threshold_of rnd relevance_threshold)
                                     results)),
                    total_retrieved = int (length results)\<rparr>"
    by (cases res) auto
  from call_zai_returns [OF c [unfolded res]]
  have "sent_llm = [GenerationRequest (sent_model config)
                      (build_messages system_prompt question ?ctx)]"
    by auto
  with sent out show ?thesis
    by (simp add: generation_messages_def)
qed


text \<open>
  When some result reaches the threshold, the context set is those results only.
\<close>

lemma ask_keeps_relevant_results:
  assumes "embed_query question = Inr emb"
      and "query rnd vs emb folder top_k = Inr results"
      and "filter (\<lambda>r. r_score r \<ge> threshold_of rnd relevance_threshold) results \<noteq> []"
      and "ask rnd environ chat system_prompt fmt3 question config embed_query vs top_k folder
             relevance_threshold = (sent, Inr out)"
  shows "sources out =
           map source_of (filter (\<lambda>r. r_score r \<ge> threshold_of rnd relevance_threshold) results) \<and>
         relevant_count out =
           int (length (filter (\<lambda>r. r_score r \<ge> threshold_of rnd relevance_threshold) results)) \<and>
         sent = [EmbedRequest question, RetrievalRequest emb folder top_k,
                 GenerationRequest (sent_model config)
                   (generation_messages system_prompt fmt3 question
                      (filter (\<lambda>r. r_score r \<ge> threshold_of rnd relevance_threshold) results))]"
  using ask_returns_result [OF assms(1,2,4)] assms(3)
  by (simp add: context_set_def)

subsection \<open>The example\<close>

lemma example_query: "query example_rnd example_store [0, 1] None 8 = Inr example_results"
  by (simp add: query_def searched_collections_def example_store_def collection_results_def
      example_collection_def example_hits_def result_of_hit_def example_results_def
      py_slice_def example_rnd_def)


lemma example_threshold:
  "threshold_of example_rnd None = 5404319552844595 / 18014398509481984"
  by (simp add: threshold_of_def RELEVANCE_THRESHOLD_def example_rnd_def)

lemma example_below_threshold:
  "list_all (\<lambda>r. r_score r < threshold_of example_rnd None) example_results"
  by (simp add: example_threshold example_results_def)




subsection \<open>The fallback to the full retrieved set\<close>




subsection \<open>A missing API key\<close>

text \<open>
  Claim C10, as stated, fails: \<open>ask\<close> reads the API key only in its last step. With
  the key unset, the embedding request and the retrieval request have been sent when
  the configuration error is raised; and when the embedder fails, it is the embedder's
  exception that reaches the caller, the key is never looked at.
\<close>

theorem ask_missing_key_counterexample:
  "ask example_rnd (\<lambda>name. None) example_chat ''prompt'' (\<lambda>x. ''0.000'') ''where is login?''
       example_config (\<lambda>q. Inr [0, 1]) example_store 8 None None =
     ([EmbedRequest ''where is login?'', RetrievalRequest [0, 1] None 8], Inl EnvironmentError) \<and>
   ask example_rnd (\<lambda>name. None) example_chat ''prompt'' (\<lambda>x. ''0.000'') ''where is login?''
       example_config (\<lambda>q. Inl (Raised ''connection refused'')) example_store 8 None None =
     ([EmbedRequest ''where is login?''], Inl (Raised ''connection refused''))"
  by (simp add: ask_def example_query call_llm_def call_zai_def Let_def)

text \<open>
  Claim C10, amended. When embedding and retrieval succeed and the API-key variable of
  the generation provider is unset or empty, \<open>ask\<close> raises the configuration error
  \<open>EnvironmentError\<close> and has sent the embedding and the retrieval request but no
  generation request. When the key is set and the provider fails on the request that
  \<open>ask\<close> sends, that failure reaches the caller of \<open>ask\<close> as the error the provider
  raised: it is not swallowed.
\<close>

theorem ask_missing_key_is_configuration_error:
  assumes "embed_query question = Inr emb"
      and "query rnd vs emb folder top_k = Inr results"
  shows "(environ (llm_api_key_env config) = None \<or> environ (llm_api_key_env config) = Some []
            \<longrightarrow> ask rnd environ chat system_prompt fmt3 question config embed_query vs top_k
                   folder relevance_threshold =
                 ([EmbedRequest question, RetrievalRequest emb folder top_k],
                  Inl EnvironmentError)) \<and>
         (\<forall>api_key e.
            environ (llm_api_key_env config) = Some api_key \<and> api_key \<noteq> [] \<and>
            chat api_key (sent_model config)
              (generation_messages system_prompt fmt3 question
                 (context_set (threshold_of rnd relevance_threshold) results)) = Inl e
            \<longrightarrow> ask rnd environ chat system_prompt fmt3 question config embed_query vs top_k
                   folder relevance_threshold =
                 ([EmbedRequest question, RetrievalRequest emb folder top_k,
                   GenerationRequest (sent_model config)
                     (generation_messages system_prompt fmt3 question
                        (context_set (threshold_of rnd relevance_threshold) results))],
                  Inl e))"
proof -
  note unfolded = ask_unfold
    [where embed_query = embed_query and question = question and environ = environ
       and chat = chat and system_prompt = system_prompt and ?fmt3.0 = fmt3 and config = config
       and relevance_threshold = relevance_threshold, OF assms]
  then show ?thesis
    by (auto simp: call_zai_def generation_messages_def sent_model_def)
qed

theorem ask_missing_key_is_configuration_error_witness:
  "query example_rnd example_store [0, 1] None 8 = Inr example_results \<and>
   ask example_rnd (\<lambda>name. None) example_chat ''prompt'' (\<lambda>x. ''0.000'') ''where is login?''
       example_config (\<lambda>q. Inr [0, 1]) example_store 8 None None =
     ([EmbedRequest ''where is login?'', RetrievalRequest [0, 1] None 8], Inl EnvironmentError) \<and>
   example_environ (llm_api_key_env example_config) = Some ''secret'' \<and>
   ask example_rnd example_environ (\<lambda>api_key model messages. Inl (Raised ''timeout''))
       ''prompt'' (\<lambda>x. ''0.000'') ''where is login?'' example_config (\<lambda>q. Inr [0, 1])
       example_store 8 None None =
     ([EmbedRequest ''where is login?'', RetrievalRequest [0, 1] None 8,
       GenerationRequest ''glm-4.7-flash''
         (generation_messages ''prompt'' (\<lambda>x. ''0.000'') ''where is login?'' example_results)],
      Inl (Raised ''timeout''))"
proof -
  have h1: "(\<lambda>q::string. (Inr [0, 1] :: error + real list)) ''where is login?'' = Inr [0, 1]"
    by simp
  have k: "example_environ (llm_api_key_env example_config) = Some ''secret''"
    by (simp add: example_environ_def example_config_def)
  have cs: "context_set (threshold_of example_rnd None) example_results = example_results"
    using example_below_threshold by (rule context_set_below_threshold)
  have m: "sent_model example_config = ''glm-4.7-flash''"
    by (simp add: sent_model_def example_config_def)
  note unset = ask_missing_key_is_configuration_error
    [where embed_query = "\<lambda>q. Inr [0, 1]" and question = "''where is login?''"
       and environ = "\<lambda>name. None" and config = example_config
       and chat = example_chat and system_prompt = "''prompt''" and ?fmt3.0 = "\<lambda>x. ''0.000''"
       and relevance_threshold = None, OF h1 example_query]
  note failing = ask_missing_key_is_configuration_error
    [where embed_query = "\<lambda>q. Inr [0, 1]" and question = "''where is login?''"
       and environ = example_environ and config = example_config
       and chat = "\<lambda>api_key model messages. Inl (Raised ''timeout'')"
       and system_prompt = "''prompt''" and ?fmt3.0 = "\<lambda>x. ''0.000''"
       and relevance_threshold = None, OF h1 example_query]
  show ?thesis
    using unset failing k example_query by (simp add: cs m)
qed

section \<open>Properties of the watcher\<close>

subsection \<open>One event\<close>

lemma length_run_events [simp]:
  "length (run_events should_ignore path_str st evs) = length evs"
  by (induction evs arbitrary: st) (auto split: prod.splits)

lemma dispatch_cases:
  assumes "dispatch should_ignore path_str now st ev = (st', act)"
  shows "(st' = st \<and> \<not> processed (st', act) \<and> (ev_kind ev \<noteq> Deleted \<longrightarrow> act = None)) \<or>
         (processed (st', act) \<and> st' = st(path_str (ev_src_path ev) \<mapsto> now) \<and>
          DEBOUNCE_SECONDS \<le> now - last_seen st (path_str (ev_src_path ev)))"
  using assms
  by (cases "ev_kind ev")
     (auto simp: dispatch_def handle_event_def on_deleted_def is_debounced_def processed_def
        last_seen_def Let_def split: if_splits)

lemma dispatch_last_seen_mono:
  assumes "dispatch should_ignore path_str now st ev = (st', act)"
  shows "last_seen st k \<le> last_seen st' k"
  using dispatch_cases [OF assms]
  by (auto simp: last_seen_def DEBOUNCE_SECONDS_def split: option.splits if_splits)

lemma dispatch_processed_sets:
  assumes "dispatch should_ignore path_str now st ev = (st', act)" and "processed (st', act)"
  shows "last_seen st' (path_str (ev_src_path ev)) = now \<and>
         DEBOUNCE_SECONDS \<le> now - last_seen st (path_str (ev_src_path ev))"
  using dispatch_cases [OF assms(1)] assms(2)
  by (auto simp: last_seen_def)

subsection \<open>Accepted events of one path are at least the window apart\<close>

lemma later_accepted_is_late:
  assumes "T \<le> last_seen st k"
      and "j < length evs"
      and "processed (run_events should_ignore path_str st evs ! j)"
      and "path_str (ev_src_path (snd (evs ! j))) = k"
  shows "T + DEBOUNCE_SECONDS \<le> fst (evs ! j)"
  using assms
proof (induction evs arbitrary: st j)
  case Nil
  then show ?case by simp
next
  case (Cons e evs)
  obtain now ev where e: "e = (now, ev)"
    by (cases e)
  obtain st' act where d: "dispatch should_ignore path_str now st ev = (st', act)"
    by (cases "dispatch should_ignore path_str now st ev")
  show ?case
  proof (cases j)
    case 0
    with Cons.prems e d have "processed (st', act)" and "path_str (ev_src_path ev) = k"
      by simp_all
    with dispatch_processed_sets [OF d] Cons.prems(1) 0 e show ?thesis
      by simp
  next
    case (Suc j')
    have "T \<le> last_seen st' k"
      using Cons.prems(1) dispatch_last_seen_mono [OF d, of k] by simp
    moreover have "j' < length evs"
      using Cons.prems(2) Suc by simp
    moreover have "processed (run_events should_ignore path_str st' evs ! j')"
      using Cons.prems(3) Suc e d by simp
    moreover have "path_str (ev_src_path (snd (evs ! j'))) = k"
      using Cons.prems(4) Suc by simp
    ultimately have "T + DEBOUNCE_SECONDS \<le> fst (evs ! j')"
      by (rule Cons.IH)
    with Suc show ?thesis by simp
  qed
qed

lemma accepted_events_are_spaced:
  assumes "i < j" and "j < length evs"
      and "path_str (ev_src_path (snd (evs ! i))) = path_str (ev_src_path (snd (evs ! j)))"
      and "processed (run_events should_ignore path_str st evs ! i)"
      and "processed (run_events should_ignore path_str st evs ! j)"
  shows "fst (evs ! i) + DEBOUNCE_SECONDS \<le> fst (evs ! j)"
  using assms
proof (induction evs arbitrary: st i j)
  case Nil
  then show ?case by simp
next
  case (Cons e evs)
  obtain now ev where e: "e = (now, ev)"
    by (cases e)
  obtain st' act where d: "dispatch should_ignore path_str now st ev = (st', act)"
    by (cases "dispatch should_ignore path_str now st ev")
  from Cons.prems(1) obtain j' where j: "j = Suc j'"
    by (cases j) auto
  show ?case
  proof (cases i)
    case 0
    with Cons.prems e d have p: "processed (st', act)"
      by simp
    have "now \<le> last_seen st' (path_str (ev_src_path ev))"
      using dispatch_processed_sets [OF d p] by simp
    moreover have "j' < length evs"
      using Cons.prems(2) j by simp
    moreover have "processed (run_events should_ignore path_str st' evs ! j')"
      using Cons.prems(5) j e d by simp
    moreover have "path_str (ev_src_path (snd (evs ! j'))) = path_str (ev_src_path ev)"
      using Cons.prems(3) j 0 e by simp
    ultimately have "now + DEBOUNCE_SECONDS \<le> fst (evs ! j')"
      by (rule later_accepted_is_late)
    with 0 j e show ?thesis by simp
  next
    case (Suc i')
    have "fst (evs ! i') + DEBOUNCE_SECONDS \<le> fst (evs ! j')"
    proof (rule Cons.IH)
      show "i' < j'" using Cons.prems(1) Suc j by simp
      show "j' < length evs" using Cons.prems(2) j by simp
      show "path_str (ev_src_path (snd (evs ! i'))) = path_str (ev_src_path (snd (evs ! j')))"
        using Cons.prems(3) Suc j by simp
      show "processed (run_events should_ignore path_str st' evs ! i')"
        using Cons.prems(4) Suc e d by simp
      show "processed (run_events should_ignore path_str st' evs ! j')"
        using Cons.prems(5) j e d by simp
    qed
    with Suc j show ?thesis by simp
  qed
qed

lemma run_events_step:
  assumes "j < length evs"
  shows "run_events should_ignore path_str st evs ! j =
         dispatch should_ignore path_str (fst (evs ! j))
           (state_before st (run_events should_ignore path_str st evs) j) (snd (evs ! j))"
  using assms
proof (induction evs arbitrary: st j)
  case Nil
  then show ?case by simp
next
  case (Cons e evs)
  obtain now ev where e: "e = (now, ev)"
    by (cases e)
  obtain st' act where d: "dispatch should_ignore path_str now st ev = (st', act)"
    by (cases "dispatch should_ignore path_str now st ev")
  show ?case
  proof (cases j)
    case 0
    with e d show ?thesis
      by (simp add: state_before_def)
  next
    case (Suc j')
    with Cons.prems have "j' < length evs" by simp
    from Cons.IH [OF this, of st'] Suc e d show ?thesis
      by (cases j') (simp_all add: state_before_def)
  qed
qed

lemma events_in_window_are_not_processed:
  assumes "i < j" and "j < length evs"
      and "path_str (ev_src_path (snd (evs ! i))) = path_str (ev_src_path (snd (evs ! j)))"
      and "processed (run_events should_ignore path_str st evs ! i)"
      and "fst (evs ! j) - fst (evs ! i) < DEBOUNCE_SECONDS"
  shows "\<not> processed (run_events should_ignore path_str st evs ! j) \<and>
         fst (run_events should_ignore path_str st evs ! j) =
           state_before st (run_events should_ignore path_str st evs) j \<and>
         (ev_kind (snd (evs ! j)) \<noteq> Deleted \<longrightarrow>
            snd (run_events should_ignore path_str st evs ! j) = None)"
proof -
  let ?outs = "run_events should_ignore path_str st evs"
  have np: "\<not> processed (?outs ! j)"
  proof
    assume "processed (?outs ! j)"
    with assms(1-4) have "fst (evs ! i) + DEBOUNCE_SECONDS \<le> fst (evs ! j)"
      by (rule accepted_events_are_spaced)
    with assms(5) show False by simp
  qed
  obtain st' act where o: "?outs ! j = (st', act)"
    by (cases "?outs ! j")
  with run_events_step [OF assms(2), of should_ignore path_str st]
  have "dispatch should_ignore path_str (fst (evs ! j)) (state_before st ?outs j) (snd (evs ! j))
        = (st', act)"
    by simp
  from dispatch_cases [OF this] np o show ?thesis
    by auto
qed

lemma burst_run:
  "map snd (run_events (\<lambda>p. False) (\<lambda>p. p) Map.empty burst) =
     [Some (ProcessFile ''/p/a.py''), None, Some (DeleteFile ''/p/a.py''), None,
      Some (ProcessFile ''/p/a.py'')]"
  by (simp add: burst_def dispatch_def handle_event_def on_deleted_def is_debounced_def
      DEBOUNCE_SECONDS_def)

lemma burst_first_processed:
  "processed (run_events (\<lambda>p. False) (\<lambda>p. p) Map.empty burst ! 0)"
  by (simp add: burst_def dispatch_def handle_event_def is_debounced_def DEBOUNCE_SECONDS_def
      processed_def)

lemma deleted_event_outcome:
  assumes "j < length evs" and "ev_kind (snd (evs ! j)) = Deleted"
  shows "run_events should_ignore path_str st evs ! j =
         (state_before st (run_events should_ignore path_str st evs) j,
          if ev_is_directory (snd (evs ! j)) \<or> should_ignore (ev_src_path (snd (evs ! j)))
          then None else Some (DeleteFile (ev_src_path (snd (evs ! j)))))"
  using run_events_step [OF assms(1), of should_ignore path_str st] assms(2)
  by (simp add: dispatch_def on_deleted_def)

subsection \<open>Debounce\<close>

text \<open>
  Claim C8, as stated, fails for delete events: \<open>on_deleted\<close> does not consult the
  debounce. In the burst the file is modified at 1000, which is accepted, and deleted
  half a second later; the delete event is not dropped, it removes the file's
  embeddings.
\<close>

theorem debounce_delete_counterexample:
  "processed (run_events (\<lambda>p. False) (\<lambda>p. p) Map.empty burst ! 0) \<and>
   ev_src_path (snd (burst ! 2)) = ev_src_path (snd (burst ! 0)) \<and>
   ev_kind (snd (burst ! 2)) = Deleted \<and>
   fst (burst ! 2) - fst (burst ! 0) < DEBOUNCE_SECONDS \<and>
   snd (run_events (\<lambda>p. False) (\<lambda>p. p) Map.empty burst ! 2) = Some (DeleteFile ''/p/a.py'')"
  by (simp add: burst_def dispatch_def handle_event_def on_deleted_def is_debounced_def
      DEBOUNCE_SECONDS_def processed_def)

text \<open>
  Claim C8, amended. In every sequence of events, when an event of a path was accepted
  (it led to \<open>_process_file\<close>), every later create or modify event of the same path
  whose time reading is less than \<open>_DEBOUNCE_SECONDS\<close> after it, in particular less
  than that after the last accepted event of the path, is dropped: it leads to no
  action and leaves the timestamps as they were, which change on acceptance only. So
  a burst collapses to its first event, and no two events of one path within the
  window both lead to \<open>_process_file\<close>. A delete event is not debounced: inside the
  window too it removes the file's embeddings, unless it is a directory event or the
  path is ignored, and it leaves the timestamps alone.
\<close>

theorem debounce_drops_events_in_window:
  assumes "i < j" and "j < length evs"
      and "path_str (ev_src_path (snd (evs ! i))) = path_str (ev_src_path (snd (evs ! j)))"
      and "processed (run_events should_ignore path_str st evs ! i)"
      and "fst (evs ! j) - fst (evs ! i) < DEBOUNCE_SECONDS"
  shows "(ev_kind (snd (evs ! j)) \<noteq> Deleted \<longrightarrow>
            run_events should_ignore path_str st evs ! j =
              (state_before st (run_events should_ignore path_str st evs) j, None)) \<and>
         (ev_kind (snd (evs ! j)) = Deleted \<longrightarrow>
            run_events should_ignore path_str st evs ! j =
              (state_before st (run_events should_ignore path_str st evs) j,
               if ev_is_directory (snd (evs ! j)) \<or> should_ignore (ev_src_path (snd (evs ! j)))
               then None else Some (DeleteFile (ev_src_path (snd (evs ! j)))))) \<and>
         \<not> processed (run_events should_ignore path_str st evs ! j)"
proof (intro conjI impI)
  note general = events_in_window_are_not_processed [OF assms]
  show "\<not> processed (run_events should_ignore path_str st evs ! j)"
    using general by simp
  show "run_events should_ignore path_str st evs ! j =
          (state_before st (run_events should_ignore path_str st evs) j, None)"
    if "ev_kind (snd (evs ! j)) \<noteq> Deleted"
    using general that by (simp add: prod_eq_iff)
  show "run_events should_ignore path_str st evs ! j =
          (state_before st (run_events should_ignore path_str st evs) j,
           if ev_is_directory (snd (evs ! j)) \<or> should_ignore (ev_src_path (snd (evs ! j)))
           then None else Some (DeleteFile (ev_src_path (snd (evs ! j)))))"
    if "ev_kind (snd (evs ! j)) = Deleted"
    using assms(2) that by (rule deleted_event_outcome)
qed

theorem debounce_drops_events_in_window_witness:
  "processed (run_events (\<lambda>p. False) (\<lambda>p. p) Map.empty burst ! 0) \<and>
   fst (burst ! 3) - fst (burst ! 0) < DEBOUNCE_SECONDS \<and>
   ev_kind (snd (burst ! 3)) = Created \<and>
   run_events (\<lambda>p. False) (\<lambda>p. p) Map.empty burst ! 3 =
     (state_before Map.empty (run_events (\<lambda>p. False) (\<lambda>p. p) Map.empty burst) 3, None) \<and>
   fst (burst ! 2) - fst (burst ! 0) < DEBOUNCE_SECONDS \<and>
   ev_kind (snd (burst ! 2)) = Deleted \<and>
   run_events (\<lambda>p. False) (\<lambda>p. p) Map.empty burst ! 2 =
     (state_before Map.empty (run_events (\<lambda>p. False) (\<lambda>p. p) Map.empty burst) 2,
      Some (DeleteFile ''/p/a.py'')) \<and>
   map snd (run_events (\<lambda>p. False) (\<lambda>p. p) Map.empty burst) =
     [Some (ProcessFile ''/p/a.py''), None, Some (DeleteFile ''/p/a.py''), None,
      Some (ProcessFile ''/p/a.py'')]"
proof -
  have len: "3 < length burst" "2 < length burst"
    by (simp_all add: burst_def)
  have same: "(\<lambda>p. p) (ev_src_path (snd (burst ! 0))) = (\<lambda>p. p) (ev_src_path (snd (burst ! 3)))"
    "(\<lambda>p. p) (ev_src_path (snd (burst ! 0))) = (\<lambda>p. p) (ev_src_path (snd (burst ! 2)))"
    by (simp_all add: burst_def)
  have window: "fst (burst ! 3) - fst (burst ! 0) < DEBOUNCE_SECONDS"
    "fst (burst ! 2) - fst (burst ! 0) < DEBOUNCE_SECONDS"
    by (simp_all add: burst_def DEBOUNCE_SECONDS_def)
  have kinds: "ev_kind (snd (burst ! 3)) = Created" "ev_kind (snd (burst ! 2)) = Deleted"
    "\<not> ev_is_directory (snd (burst ! 2))" "ev_src_path (snd (burst ! 2)) = ''/p/a.py''"
    by (simp_all add: burst_def)
  have i3: "(0::nat) < 3" and i2: "(0::nat) < 2"
    by simp_all
  note created = debounce_drops_events_in_window
    [where path_str = "\<lambda>p. p" and should_ignore = "\<lambda>p. False" and st = Map.empty,
     OF i3 len(1) same(1) burst_first_processed window(1)]
  note deleted = debounce_drops_events_in_window
    [where path_str = "\<lambda>p. p" and should_ignore = "\<lambda>p. False" and st = Map.empty,
     OF i2 len(2) same(2) burst_first_processed window(2)]
  show ?thesis
    using created deleted burst_first_processed window kinds burst_run by simp
qed

end
